theory Spec2Isabelle
  imports Complex_Main "HOL-Library.Word"
begin

section \<open>Data model of the transfer tool (main.go)\<close>

text \<open>
  Go's \<open>int64\<close> is a 64-bit word read in two's complement: \<open>+\<close> wraps, comparisons
  are the signed ones (\<open><s\<close>), \<open>sint\<close> reads the value.
\<close>

type_synonym int64 = "64 word"

text \<open>
  Go's \<open>float64\<close>: the conversion of an integer and a constant are real numbers
  (rounding is not modelled, and it never turns a number that is not zero into zero). The
  result of a division is either such a number or, when the divisor is zero, what Go yields
  then: an infinity or a NaN (Go does not panic on a floating-point division by zero).
  Dividing or multiplying an infinity or a NaN by a number gives an infinity or a NaN again.
\<close>

datatype float64 = is_Finite: Finite real | NonFinite

definition float64_of_int64 :: "int64 \<Rightarrow> real" where
  "float64_of_int64 c = real_of_int (sint c)"

fun f64_div :: "float64 \<Rightarrow> real \<Rightarrow> float64" where
  "f64_div (Finite a) b = (if b = 0 then NonFinite else Finite (a / b))"
| "f64_div NonFinite b = NonFinite"

fun f64_mul :: "float64 \<Rightarrow> real \<Rightarrow> float64" where
  "f64_mul (Finite a) b = Finite (a * b)"
| "f64_mul NonFinite b = NonFinite"

text \<open>
  An \<open>error\<close> value is either one handed back by a library (the AWS SDK, the SQL driver,
  the operating system), or one built by \<open>fmt.Errorf\<close>: the format string of the source and
  its arguments, in order. \<open>%w\<close> wraps an \<open>ArgError\<close>.
\<close>

datatype fmtarg = ArgInt64 int64 | ArgFloat64 float64 | ArgString string | ArgError error
  and error = LibError string | Errorf string "fmtarg list"

text \<open>What ends the whole process: \<open>log.Fatalf\<close>, or the panic of a nil pointer dereference.\<close>

datatype abort = Fatalf string "fmtarg list" | NilDereference

record Job =
  Key :: string

record TransferStats =
  StartTime :: int
  EndTime :: int
  TotalFiles :: int64
  SuccessCount :: int64
  ErrorCount :: int64
  TotalSizeBytes :: int64
  Method :: "(string \<times> int64) list"

text \<open>
  \<open>stats.Method[k]++\<close> on a Go map: a key that is absent reads as 0. The map is kept as
  an association list with one entry per key, because the report iterates over it.
\<close>

fun increment :: "string \<Rightarrow> (string \<times> int64) list \<Rightarrow> (string \<times> int64) list" where
  "increment k [] = [(k, 1)]"
| "increment k ((k', c) # m) = (if k' = k then (k', c + 1) # m else (k', c) # increment k m)"

subsection \<open>The storage client\<close>

datatype ListObjectsV2Input = ListObjectsV2Input
  string  \<comment> \<open>Bucket\<close>
  "string option"  \<comment> \<open>Prefix\<close>
  "string option"  \<comment> \<open>ContinuationToken\<close>
  "int option"  \<comment> \<open>MaxKeys\<close>

datatype Object = Object (ObjectKey: "string option")

record ListObjectsV2Output =
  Contents :: "Object list"
  IsTruncated :: "bool option"
  NextContinuationToken :: "string option"

datatype CopyObjectInput = CopyObjectInput
  string  \<comment> \<open>Bucket\<close>
  string  \<comment> \<open>Key\<close>
  string  \<comment> \<open>CopySource\<close>
  string  \<comment> \<open>MetadataDirective\<close>
  string  \<comment> \<open>StorageClass\<close>

datatype HeadObjectInput = HeadObjectInput string string  \<comment> \<open>Bucket, Key\<close>

record HeadObjectOutput =
  ContentLength :: "int64 option"
  ContentType :: "string option"
  Metadata :: "(string \<times> string) list"

datatype GetObjectInput = GetObjectInput string string  \<comment> \<open>Bucket, Key\<close>

record GetObjectOutput =
  Body :: string

datatype PutObjectInput = PutObjectInput
  string  \<comment> \<open>Bucket\<close>
  string  \<comment> \<open>Key\<close>
  string  \<comment> \<open>Body\<close>
  "int64 option"  \<comment> \<open>ContentLength\<close>
  "string option"  \<comment> \<open>ContentType\<close>
  "(string \<times> string) list"  \<comment> \<open>Metadata\<close>

text \<open>
  An \<open>*s3.Client\<close> is the capability the program consumes: for each operation, the answer
  the service gives to a request. \<open>Inl\<close> and \<open>Some\<close> carry the \<open>err\<close> that is not nil.
\<close>

record s3Client =
  ListObjectsV2 :: "ListObjectsV2Input \<Rightarrow> error + ListObjectsV2Output"
  GetBucketLocation :: "string \<Rightarrow> error + string"
  CopyObject :: "CopyObjectInput \<Rightarrow> error option"
  HeadObject :: "HeadObjectInput \<Rightarrow> error + HeadObjectOutput"
  GetObject :: "GetObjectInput \<Rightarrow> error + GetObjectOutput"
  PutObject :: "PutObjectInput \<Rightarrow> error option"

text \<open>The requests the program has issued, oldest first.\<close>

datatype s3call =
    CallListObjectsV2 ListObjectsV2Input
  | CallGetBucketLocation string
  | CallCopyObject CopyObjectInput
  | CallHeadObject HeadObjectInput
  | CallGetObject GetObjectInput
  | CallPutObject PutObjectInput

subsection \<open>The audit store\<close>

text \<open>\<open>ErrorString e\<close> is the text \<open>e.Error()\<close>.\<close>

datatype message = Str string | ErrorString error

text \<open>
  The row of \<open>INSERT INTO document_logs (file_key, status, message, moved_at)\<close>; the
  fourth column is the wall clock at the insert and is left out.
\<close>

record document_log =
  file_key :: string
  status :: string
  message :: message

record DB =
  Ping :: "error option"
  QueryVersion :: "error + string"
  QueryTableExists :: "error + int"
  Exec :: "document_log \<Rightarrow> error option"

subsection \<open>The report\<close>

text \<open>
  The values that \<open>writeSummaryLog\<close> renders into the report, in the order of the format
  string, followed by one line per method and the worker count.
\<close>

record Report =
  rStartTime :: int
  rEndTime :: int
  rDuration :: int
  rSrcBucket :: string
  rDstBucket :: string
  rTotalFiles :: int64
  rSuccessCount :: int64
  rErrorCount :: int64
  successRate :: float64
  dataMB :: float64
  dataGB :: float64
  filesPerSecond :: float64
  mbPerSecond :: float64
  methodLines :: "(string \<times> int64 \<times> float64) list"
  workerThreads :: int

subsection \<open>Everything the program changes\<close>

text \<open>
  The shared \<open>stats\<close>, the requests sent to the storage service, the inserts handed to
  \<open>db.Exec\<close> and the rows it stored, the lines of \<open>log.Printf\<close>, and the reports handed to
  \<open>os.WriteFile\<close> with the ones it wrote. Console output (\<open>fmt.Printf\<close>), the deferred
  \<open>obj.Body.Close()\<close> and \<open>db.Close()\<close>, and the durations measured per file are left out.
\<close>

record World =
  stats :: TransferStats
  s3calls :: "s3call list"
  dbExecs :: "document_log list"
  dbRows :: "document_log list"
  logs :: "(string \<times> fmtarg list) list"
  writes :: "Report list"
  files :: "Report list"

section \<open>The transfer strategy\<close>

definition issue :: "s3call \<Rightarrow> World \<Rightarrow> World" where
  "issue c w = w\<lparr>s3calls := s3calls w @ [c]\<rparr>"

definition update_stats :: "(TransferStats \<Rightarrow> TransferStats) \<Rightarrow> World \<Rightarrow> World" where
  "update_stats f w = w\<lparr>stats := f (stats w)\<rparr>"

text \<open>
  The error of main.go line 255, built when \<open>fileSize\<close> is over the limit: the message
  names the limit and carries the size of the object, in bytes and in GB.
\<close>

definition file_too_large :: "int64 \<Rightarrow> error" where
  "file_too_large fileSize =
    Errorf
      ''file too large (%d bytes / %.2f GB) - exceeds 5GB single PUT limit. Please use AWS CLI 'aws s3 cp' for files >5GB''
      [ArgInt64 fileSize,
       ArgFloat64 (f64_div (Finite (float64_of_int64 fileSize)) (1024 * 1024 * 1024))]"

text \<open>
  \<open>moveObjectFallback\<close>, main.go lines 236 to 287. The result is \<open>Inr err\<close> when the
  function returns \<open>err\<close> (\<open>None\<close> is nil) and \<open>Inl\<close> when the process dies in it:
  \<open>*headObj.ContentLength\<close> dereferences a pointer that the SDK leaves nil when the
  response carries no length.
\<close>

definition moveObjectFallback ::
  "s3Client \<Rightarrow> s3Client \<Rightarrow> string \<Rightarrow> string \<Rightarrow> string \<Rightarrow> World \<Rightarrow> (abort + error option) \<times> World"
where
  "moveObjectFallback src dst srcBucket dstBucket key w =
    (let w1 = issue (CallHeadObject (HeadObjectInput srcBucket key)) w in
     case HeadObject src (HeadObjectInput srcBucket key) of
       Inl err \<Rightarrow> (Inr (Some (Errorf ''head object error: %w'' [ArgError err])), w1)
     | Inr headObj \<Rightarrow>
        (case ContentLength headObj of
           None \<Rightarrow> (Inl NilDereference, w1)
         | Some fileSize \<Rightarrow>
            (let w2 = update_stats (\<lambda>s. s\<lparr>TotalSizeBytes := TotalSizeBytes s + fileSize\<rparr>) w1 in
             if 5 * 1024 * 1024 * 1024 <s fileSize then
               (Inr (Some (file_too_large fileSize)), w2)
             else
               (let w3 = issue (CallGetObject (GetObjectInput srcBucket key)) w2 in
                case GetObject src (GetObjectInput srcBucket key) of
                  Inl err \<Rightarrow> (Inr (Some (Errorf ''get error: %w'' [ArgError err])), w3)
                | Inr obj \<Rightarrow>
                   (let input = PutObjectInput dstBucket key (Body obj)
                                  (ContentLength headObj) (ContentType headObj) (Metadata headObj);
                        w4 = issue (CallPutObject input) w3 in
                    case PutObject dst input of
                      Some err \<Rightarrow> (Inr (Some (Errorf ''streaming put error: %w'' [ArgError err])), w4)
                    | None \<Rightarrow>
                       (Inr None,
                        update_stats (\<lambda>s. s\<lparr>Method := increment ''streaming'' (Method s)\<rparr>) w4))))))"

text \<open>\<open>moveObject\<close>, main.go lines 213 to 234.\<close>

definition moveObject ::
  "s3Client \<Rightarrow> s3Client \<Rightarrow> string \<Rightarrow> string \<Rightarrow> string \<Rightarrow> World \<Rightarrow> (abort + error option) \<times> World"
where
  "moveObject src dst srcBucket dstBucket key w =
    (let copySource = srcBucket @ ''/'' @ key;
         input = CopyObjectInput dstBucket key copySource ''COPY'' ''STANDARD'';
         w1 = issue (CallCopyObject input) w in
     case CopyObject src input of
       Some err \<Rightarrow> moveObjectFallback src dst srcBucket dstBucket key w1
     | None \<Rightarrow> (Inr None, update_stats (\<lambda>s. s\<lparr>Method := increment ''server-side'' (Method s)\<rparr>) w1))"

section \<open>The audit sink and the worker\<close>

text \<open>\<open>logToDB\<close>, main.go lines 368 to 374: nothing is returned to the caller.\<close>

definition logToDB :: "DB \<Rightarrow> string \<Rightarrow> string \<Rightarrow> message \<Rightarrow> World \<Rightarrow> World" where
  "logToDB db key st msg w =
    (let row = \<lparr>file_key = key, status = st, message = msg\<rparr>;
         w1 = w\<lparr>dbExecs := dbExecs w @ [row]\<rparr> in
     case Exec db row of
       Some err \<Rightarrow> w1\<lparr>logs := logs w1 @ [(''DB insert failed for key %s: %v'', [ArgString key, ArgError err])]\<rparr>
     | None \<Rightarrow> w1\<lparr>dbRows := dbRows w1 @ [row]\<rparr>)"

text \<open>
  The body of the loop of \<open>worker\<close>, main.go lines 187 to 208, after \<open>moveObject\<close> has
  returned \<open>err\<close>: status and message, one of the two counters, and the audit record.
\<close>

definition record_outcome :: "DB \<Rightarrow> Job \<Rightarrow> error option \<Rightarrow> World \<Rightarrow> World" where
  "record_outcome db job err w =
    (case err of
       Some e \<Rightarrow>
         logToDB db (Key job) ''error'' (ErrorString e)
           (update_stats (\<lambda>s. s\<lparr>ErrorCount := ErrorCount s + 1\<rparr>) w)
     | None \<Rightarrow>
         logToDB db (Key job) ''success'' (Str ''moved'')
           (update_stats (\<lambda>s. s\<lparr>SuccessCount := SuccessCount s + 1\<rparr>) w))"

text \<open>
  \<open>worker\<close>, main.go lines 184 to 211, on the jobs it receives from the channel until the
  channel is closed and drained. \<open>None\<close>: the worker returned; \<open>Some a\<close>: the process died
  while it ran a job.
\<close>

fun worker ::
  "s3Client \<Rightarrow> s3Client \<Rightarrow> string \<Rightarrow> string \<Rightarrow> DB \<Rightarrow> Job list \<Rightarrow> World \<Rightarrow> abort option \<times> World"
where
  "worker src dst srcBucket dstBucket db [] w = (None, w)"
| "worker src dst srcBucket dstBucket db (job # jobs) w =
    (case moveObject src dst srcBucket dstBucket (Key job) w of
       (Inl a, w1) \<Rightarrow> (Some a, w1)
     | (Inr err, w1) \<Rightarrow> worker src dst srcBucket dstBucket db jobs (record_outcome db job err w1))"

section \<open>The lister\<close>

text \<open>
  The inner loop of \<open>listKeys\<close>, \<open>keys = append(keys, *obj.Key)\<close> for each object of the
  page: \<open>None\<close> when an object has no key and the dereference panics.
\<close>

fun append_keys :: "string list \<Rightarrow> Object list \<Rightarrow> string list option" where
  "append_keys keys [] = Some keys"
| "append_keys keys (obj # objs) =
    (case ObjectKey obj of None \<Rightarrow> None | Some k \<Rightarrow> append_keys (keys @ [k]) objs)"

text \<open>
  The \<open>for\<close> loop of \<open>listKeys\<close>, main.go lines 158 to 180, from the state
  \<open>(keys, token)\<close>. The service decides whether it ends, so the result is optional:
  \<open>None\<close> when the loop runs forever.
\<close>

partial_function (option) listKeys_loop ::
  "s3Client \<Rightarrow> string \<Rightarrow> string \<Rightarrow> string list \<Rightarrow> string option \<Rightarrow> World
    \<Rightarrow> ((abort + string list) \<times> World) option"
where
  "listKeys_loop client bucket prefix keys token w =
    (let input = ListObjectsV2Input bucket (if prefix \<noteq> [] then Some prefix else None) token None;
         w1 = issue (CallListObjectsV2 input) w in
     case ListObjectsV2 client input of
       Inl err \<Rightarrow> Some (Inl (Fatalf ''Unable to list objects: %v'' [ArgError err]), w1)
     | Inr resp \<Rightarrow>
        (case append_keys keys (Contents resp) of
           None \<Rightarrow> Some (Inl NilDereference, w1)
         | Some keys' \<Rightarrow>
            if IsTruncated resp = None \<or> IsTruncated resp = Some False then Some (Inr keys', w1)
            else listKeys_loop client bucket prefix keys' (NextContinuationToken resp) w1))"

text \<open>\<open>listKeys\<close>, main.go lines 153 to 182; \<open>prefix\<close> is \<open>os.Getenv("SRC_PREFIX")\<close>.\<close>

definition listKeys ::
  "s3Client \<Rightarrow> string \<Rightarrow> string \<Rightarrow> World \<Rightarrow> ((abort + string list) \<times> World) option"
where
  "listKeys client bucket prefix w = listKeys_loop client bucket prefix [] None w"

section \<open>The report writer\<close>

text \<open>
  A \<open>time.Time\<close> is a count of nanoseconds; \<open>t.Sub(u)\<close> is the \<open>Duration\<close> between
  two of them, which stops at the largest and the smallest \<open>int64\<close>, and
  \<open>d.Seconds()\<close> is that duration in seconds.
\<close>

definition Sub :: "int \<Rightarrow> int \<Rightarrow> int" where
  "Sub t u = max (- (2 ^ 63)) (min (2 ^ 63 - 1) (t - u))"

definition Seconds :: "int \<Rightarrow> real" where
  "Seconds d = real_of_int d / 1000000000"

text \<open>The values computed by \<open>writeSummaryLog\<close>, main.go lines 293 to 358.\<close>

definition summary :: "TransferStats \<Rightarrow> string \<Rightarrow> string \<Rightarrow> int \<Rightarrow> Report" where
  "summary st srcBucket dstBucket workerCount =
    (let duration = Sub (EndTime st) (StartTime st);
         filesPerSecond =
           (if Seconds duration > 0
            then f64_div (Finite (float64_of_int64 (SuccessCount st))) (Seconds duration)
            else Finite 0);
         mbPerSecond =
           (if Seconds duration > 0
            then f64_div (f64_div (Finite (float64_of_int64 (TotalSizeBytes st))) (1024 * 1024))
                   (Seconds duration)
            else Finite 0);
         successRate =
           (if 0 <s TotalFiles st
            then f64_mul (f64_div (Finite (float64_of_int64 (SuccessCount st)))
                            (float64_of_int64 (TotalFiles st))) 100
            else Finite 0)
     in \<lparr>rStartTime = StartTime st,
         rEndTime = EndTime st,
         rDuration = duration,
         rSrcBucket = srcBucket,
         rDstBucket = dstBucket,
         rTotalFiles = TotalFiles st,
         rSuccessCount = SuccessCount st,
         rErrorCount = ErrorCount st,
         successRate = successRate,
         dataMB = f64_div (Finite (float64_of_int64 (TotalSizeBytes st))) (1024 * 1024),
         dataGB = f64_div (Finite (float64_of_int64 (TotalSizeBytes st))) (1024 * 1024 * 1024),
         filesPerSecond = filesPerSecond,
         mbPerSecond = mbPerSecond,
         methodLines =
           map (\<lambda>(method, count).
                  (method, count,
                   f64_mul (f64_div (Finite (float64_of_int64 count))
                              (float64_of_int64 (SuccessCount st))) 100))
               (Method st),
         workerThreads = workerCount\<rparr>)"

text \<open>
  \<open>writeSummaryLog\<close>, main.go lines 289 to 366; \<open>os_WriteFile\<close> is what
  \<open>os.WriteFile\<close> answers. The file name, a rendering of the start time, is left out.
\<close>

definition writeSummaryLog ::
  "error option \<Rightarrow> TransferStats \<Rightarrow> string \<Rightarrow> string \<Rightarrow> int \<Rightarrow> World \<Rightarrow> World"
where
  "writeSummaryLog os_WriteFile st srcBucket dstBucket workerCount w =
    (let content = summary st srcBucket dstBucket workerCount;
         w1 = w\<lparr>writes := writes w @ [content]\<rparr> in
     case os_WriteFile of
       Some err \<Rightarrow> w1\<lparr>logs := logs w1 @ [(''Failed to write summary log: %v'', [ArgError err])]\<rparr>
     | None \<Rightarrow> w1\<lparr>files := files w1 @ [content]\<rparr>)"

section \<open>Startup checks and main\<close>

text \<open>\<open>testDBConnection\<close>, main.go lines 376 to 405.\<close>

definition testDBConnection :: "DB \<Rightarrow> error option" where
  "testDBConnection db =
    (case Ping db of
       Some err \<Rightarrow> Some (Errorf ''ping failed: %w'' [ArgError err])
     | None \<Rightarrow>
        (case QueryVersion db of
           Inl err \<Rightarrow> Some (Errorf ''version query failed: %w'' [ArgError err])
         | Inr version \<Rightarrow>
            (case QueryTableExists db of
               Inl err \<Rightarrow> Some (Errorf ''table check failed: %w'' [ArgError err])
             | Inr tableExists \<Rightarrow>
                if tableExists = 0 then Some (Errorf ''document_logs table does not exist'' [])
                else None)))"

text \<open>
  \<open>testS3Connection\<close>, main.go lines 407 to 435. The answer to \<open>GetBucketLocation\<close>
  is only printed.
\<close>

definition testS3Connection :: "s3Client \<Rightarrow> string \<Rightarrow> string \<Rightarrow> World \<Rightarrow> error option \<times> World" where
  "testS3Connection client bucket connType w =
    (if bucket = [] then (Some (Errorf ''%s bucket name is empty'' [ArgString connType]), w)
     else
       (let input = ListObjectsV2Input bucket None None (Some 1);
            w1 = issue (CallListObjectsV2 input) w in
        case ListObjectsV2 client input of
          Inl err \<Rightarrow>
            (Some (Errorf ''bucket access test failed for %s bucket '%s': %w''
                     [ArgString connType, ArgString bucket, ArgError err]), w1)
        | Inr resp \<Rightarrow> (None, issue (CallGetBucketLocation bucket) w1)))"

text \<open>
  What the process finds around it: the outcome of each library call of the startup, the
  environment variables, the two clocks read by \<open>main\<close> (at the start and after the
  pool has drained), and the answer of \<open>os.WriteFile\<close>.
\<close>

record Env =
  godotenv_Load :: "error option"
  os_MkdirAll :: "error option"
  sql_Open :: "error + DB"
  config_src :: "error + s3Client"
  config_dst :: "error + s3Client"
  SRC_BUCKET :: string
  DST_BUCKET :: string
  SRC_PREFIX :: string
  now_start :: int
  now_end :: int
  os_WriteFile :: "error option"

text \<open>The pool size, main.go lines 94 to 97, from \<open>len(keys)\<close>.\<close>

definition workerCount :: "nat \<Rightarrow> int" where
  "workerCount n = (if n < 1000 then 25 else 150)"

definition initial_world :: "int \<Rightarrow> World" where
  "initial_world now =
    \<lparr>stats = \<lparr>StartTime = now, EndTime = 0, TotalFiles = 0, SuccessCount = 0, ErrorCount = 0,
               TotalSizeBytes = 0, Method = []\<rparr>,
     s3calls = [], dbExecs = [], dbRows = [], logs = [], writes = [], files = []\<rparr>"

text \<open>
  \<open>main\<close>, lines 36 to 73: every failure is a \<open>log.Fatalf\<close>. The result is the audit
  store and the two clients.
\<close>

definition startup :: "Env \<Rightarrow> World \<Rightarrow> (abort + DB \<times> s3Client \<times> s3Client) \<times> World" where
  "startup env w =
    (case godotenv_Load env of
       Some err \<Rightarrow> (Inl (Fatalf ''Error loading .env file: %v'' [ArgError err]), w)
     | None \<Rightarrow>
    (case os_MkdirAll env of
       Some err \<Rightarrow> (Inl (Fatalf ''Failed to create logs directory: %v'' [ArgError err]), w)
     | None \<Rightarrow>
    (case sql_Open env of
       Inl err \<Rightarrow> (Inl (Fatalf ''DB connection error: %v'' [ArgError err]), w)
     | Inr db \<Rightarrow>
    (case testDBConnection db of
       Some err \<Rightarrow> (Inl (Fatalf ''Database connection test failed: %v'' [ArgError err]), w)
     | None \<Rightarrow>
    (case config_src env of
       Inl err \<Rightarrow> (Inl (Fatalf ''Unable to load AWS config: %v'' [ArgError err]), w)
     | Inr srcS3 \<Rightarrow>
    (case config_dst env of
       Inl err \<Rightarrow> (Inl (Fatalf ''Unable to load AWS config: %v'' [ArgError err]), w)
     | Inr dstS3 \<Rightarrow>
    (case testS3Connection srcS3 (SRC_BUCKET env) ''source'' w of
       (Some err, w1) \<Rightarrow> (Inl (Fatalf ''Source S3 connection test failed: %v'' [ArgError err]), w1)
     | (None, w1) \<Rightarrow>
    (case testS3Connection dstS3 (DST_BUCKET env) ''destination'' w1 of
       (Some err, w2) \<Rightarrow>
         (Inl (Fatalf ''Destination S3 connection test failed: %v'' [ArgError err]), w2)
     | (None, w2) \<Rightarrow> (Inr (db, srcS3, dstS3), w2)))))))))"

text \<open>
  \<open>main\<close>, lines 75 to 128, once the startup has passed. The pool: \<open>workerCount\<close>
  workers receive from one channel, which \<open>main\<close> fills with the keys in order and then
  closes, and \<open>wg.Wait()\<close> returns when all of them have returned. Every access to
  \<open>stats\<close> is an addition made under the one mutex, and no job reads \<open>stats\<close>, so the
  pool is modelled as one \<open>worker\<close> that receives every job, in the order of the
  channel. The pool with its workers interleaved is \<open>pool_step\<close> below: the run of one worker
  is one of its runs, and the equations between the counters hold on all of them.
\<close>

definition transfer ::
  "Env \<Rightarrow> DB \<Rightarrow> s3Client \<Rightarrow> s3Client \<Rightarrow> World \<Rightarrow> (abort option \<times> World) option"
where
  "transfer env db srcS3 dstS3 w =
    (let bucketSrc = SRC_BUCKET env; bucketDst = DST_BUCKET env in
     case listKeys srcS3 bucketSrc (SRC_PREFIX env) w of
       None \<Rightarrow> None
     | Some (Inl a, w1) \<Rightarrow> Some (Some a, w1)
     | Some (Inr keys, w1) \<Rightarrow>
        (let w2 = update_stats (\<lambda>s. s\<lparr>TotalFiles := of_nat (length keys)\<rparr>) w1 in
         if length keys = 0 then
           (let w3 = update_stats (\<lambda>s. s\<lparr>EndTime := now_end env\<rparr>) w2 in
            Some (None, writeSummaryLog (os_WriteFile env) (stats w3) bucketSrc bucketDst 0 w3))
         else
           (case worker srcS3 dstS3 bucketSrc bucketDst db (map (\<lambda>key. \<lparr>Key = key\<rparr>) keys) w2 of
              (Some a, w3) \<Rightarrow> Some (Some a, w3)
            | (None, w3) \<Rightarrow>
               (let w4 = update_stats (\<lambda>s. s\<lparr>EndTime := now_end env\<rparr>) w3 in
                Some (None,
                  writeSummaryLog (os_WriteFile env) (stats w4) bucketSrc bucketDst
                    (workerCount (length keys)) w4)))))"

text \<open>
  \<open>main\<close>. \<open>None\<close>: the listing never ends; \<open>Some (Some a, w)\<close>: the process died
  with \<open>a\<close>; \<open>Some (None, w)\<close>: \<open>main\<close> returned.
\<close>

definition main :: "Env \<Rightarrow> (abort option \<times> World) option" where
  "main env =
    (case startup env (initial_world (now_start env)) of
       (Inl a, w) \<Rightarrow> Some (Some a, w)
     | (Inr (db, srcS3, dstS3), w) \<Rightarrow> transfer env db srcS3 dstS3 w)"

section \<open>Observations used in the statements\<close>

text \<open>The audit records of each status among the inserts handed to \<open>db.Exec\<close>.\<close>

definition successes :: "document_log list \<Rightarrow> nat" where
  "successes rows = length (filter (\<lambda>r. status r = ''success'') rows)"

definition failures :: "document_log list \<Rightarrow> nat" where
  "failures rows = length (filter (\<lambda>r. status r = ''error'') rows)"

text \<open>The count of a method, \<open>stats.Method[k]\<close>: a key that is absent reads as 0.\<close>

definition method_count :: "string \<Rightarrow> (string \<times> int64) list \<Rightarrow> int64" where
  "method_count k m = (case map_of m k of None \<Rightarrow> 0 | Some c \<Rightarrow> c)"

text \<open>
  A report in which no division by zero was performed: every value that comes out of a
  division is a number.
\<close>

definition no_division_by_zero :: "Report \<Rightarrow> bool" where
  "no_division_by_zero r =
    (is_Finite (successRate r) \<and> is_Finite (dataMB r) \<and> is_Finite (dataGB r)
     \<and> is_Finite (filesPerSecond r) \<and> is_Finite (mbPerSecond r)
     \<and> list_all (\<lambda>(method, count, percentage). is_Finite percentage) (methodLines r))"

text \<open>
  The request that \<open>listKeys\<close> sends for the page at \<open>token\<close>, and the test that
  ends its loop.
\<close>

definition page_request :: "string \<Rightarrow> string \<Rightarrow> string option \<Rightarrow> ListObjectsV2Input" where
  "page_request bucket prefix token =
     ListObjectsV2Input bucket (if prefix \<noteq> [] then Some prefix else None) token None"

definition last_page :: "ListObjectsV2Output \<Rightarrow> bool" where
  "last_page resp = (IsTruncated resp = None \<or> IsTruncated resp = Some False)"

text \<open>
  The service answers the requests of \<open>listKeys\<close>, from \<open>token\<close> on, with the pages
  given, each but the last reporting a continuation.
\<close>

fun pages_served ::
  "s3Client \<Rightarrow> string \<Rightarrow> string \<Rightarrow> string option \<Rightarrow> ListObjectsV2Output list \<Rightarrow> bool"
where
  "pages_served client bucket prefix token [] = False"
| "pages_served client bucket prefix token (resp # rest) =
    (ListObjectsV2 client (page_request bucket prefix token) = Inr resp
     \<and> (if last_page resp then rest = []
        else pages_served client bucket prefix (NextContinuationToken resp) rest))"

text \<open>
  The service answers with the pages given, each reporting a continuation, and then fails
  the next request with \<open>err\<close>.
\<close>

fun pages_then_failure ::
  "s3Client \<Rightarrow> string \<Rightarrow> string \<Rightarrow> string option \<Rightarrow> ListObjectsV2Output list \<Rightarrow> error \<Rightarrow> bool"
where
  "pages_then_failure client bucket prefix token [] err =
    (ListObjectsV2 client (page_request bucket prefix token) = Inl err)"
| "pages_then_failure client bucket prefix token (resp # rest) err =
    (ListObjectsV2 client (page_request bucket prefix token) = Inr resp \<and> \<not> last_page resp
     \<and> pages_then_failure client bucket prefix (NextContinuationToken resp) rest err)"

text \<open>
  Two states with the same statistics, the same requests sent to the storage service and
  the same records handed to the audit sink.
\<close>

definition same_outcome :: "World \<Rightarrow> World \<Rightarrow> bool" where
  "same_outcome v v' = (stats v = stats v' \<and> s3calls v = s3calls v' \<and> dbExecs v = dbExecs v')"

definition is_listing :: "s3call \<Rightarrow> bool" where
  "is_listing c = (case c of CallListObjectsV2 i \<Rightarrow> True | _ \<Rightarrow> False)"

definition is_copy :: "s3call \<Rightarrow> bool" where
  "is_copy c = (case c of CallCopyObject i \<Rightarrow> True | _ \<Rightarrow> False)"

section \<open>A run on three objects\<close>

text \<open>
  The end-to-end scenario of the specification: a source bucket with the objects \<open>A\<close>
  (the direct copy succeeds), \<open>B\<close> (10 GiB, the direct copy fails) and \<open>C\<close> (10 MiB, the
  direct copy fails), listed on two pages.
\<close>

definition abc_page1 :: ListObjectsV2Output where
  "abc_page1 = \<lparr>Contents = [Object (Some ''A''), Object (Some ''B'')], IsTruncated = Some True,
                 NextContinuationToken = Some ''t1''\<rparr>"

definition abc_page2 :: ListObjectsV2Output where
  "abc_page2 = \<lparr>Contents = [Object (Some ''C'')], IsTruncated = Some False,
                 NextContinuationToken = None\<rparr>"

definition abc_head :: "int64 \<Rightarrow> HeadObjectOutput" where
  "abc_head n = \<lparr>ContentLength = Some n, ContentType = Some ''text/plain'', Metadata = []\<rparr>"

definition abc_src :: s3Client where
  "abc_src =
    \<lparr>ListObjectsV2 = (\<lambda>i.
        if i = ListObjectsV2Input ''src'' None None (Some 1) then Inr abc_page2
        else if i = ListObjectsV2Input ''src'' None None None then Inr abc_page1
        else if i = ListObjectsV2Input ''src'' None (Some ''t1'') None then Inr abc_page2
        else Inl (LibError ''NoSuchBucket'')),
     GetBucketLocation = (\<lambda>b. Inr ''us-east-1''),
     CopyObject = (\<lambda>i.
        if i = CopyObjectInput ''dst'' ''A'' ''src/A'' ''COPY'' ''STANDARD'' then None
        else Some (LibError ''AccessDenied'')),
     HeadObject = (\<lambda>i.
        if i = HeadObjectInput ''src'' ''B'' then Inr (abc_head (10 * 1024 * 1024 * 1024))
        else if i = HeadObjectInput ''src'' ''C'' then Inr (abc_head (10 * 1024 * 1024))
        else Inl (LibError ''NotFound'')),
     GetObject = (\<lambda>i. Inr \<lparr>Body = ''bytes''\<rparr>),
     PutObject = (\<lambda>i. Some (LibError ''AccessDenied''))\<rparr>"

definition abc_dst :: s3Client where
  "abc_dst =
    \<lparr>ListObjectsV2 = (\<lambda>i. Inr abc_page2),
     GetBucketLocation = (\<lambda>b. Inr ''eu-west-1''),
     CopyObject = (\<lambda>i. Some (LibError ''AccessDenied'')),
     HeadObject = (\<lambda>i. Inl (LibError ''NotFound'')),
     GetObject = (\<lambda>i. Inl (LibError ''NotFound'')),
     PutObject = (\<lambda>i. None)\<rparr>"

text \<open>An audit store that is up, and one that refuses every insert.\<close>

definition abc_db :: DB where
  "abc_db = \<lparr>Ping = None, QueryVersion = Inr ''8.0'', QueryTableExists = Inr 1,
              Exec = (\<lambda>row. None)\<rparr>"

definition abc_db_down :: DB where
  "abc_db_down = abc_db\<lparr>Exec := (\<lambda>row. Some (LibError ''connection refused''))\<rparr>"

definition abc_jobs :: "Job list" where
  "abc_jobs = [\<lparr>Key = ''A''\<rparr>, \<lparr>Key = ''B''\<rparr>, \<lparr>Key = ''C''\<rparr>]"

definition abc_env :: Env where
  "abc_env =
    \<lparr>godotenv_Load = None, os_MkdirAll = None, sql_Open = Inr abc_db,
     config_src = Inr abc_src, config_dst = Inr abc_dst,
     SRC_BUCKET = ''src'', DST_BUCKET = ''dst'', SRC_PREFIX = [],
     now_start = 0, now_end = 5000000000, os_WriteFile = None\<rparr>"

text \<open>
  The same surroundings with a source bucket whose listing is one page: one without any
  object, and one with the object \<open>B\<close> alone.
\<close>

definition abc_env_listing :: "ListObjectsV2Output \<Rightarrow> Env" where
  "abc_env_listing page = abc_env\<lparr>config_src := Inr (abc_src\<lparr>ListObjectsV2 := \<lambda>i. Inr page\<rparr>)\<rparr>"

definition abc_no_object :: ListObjectsV2Output where
  "abc_no_object = \<lparr>Contents = [], IsTruncated = Some False, NextContinuationToken = None\<rparr>"

definition abc_only_B :: ListObjectsV2Output where
  "abc_only_B = \<lparr>Contents = [Object (Some ''B'')], IsTruncated = None,
                  NextContinuationToken = None\<rparr>"

text \<open>
  The three objects behind a source whose metadata answers carry no length: \<open>ContentLength\<close>
  is a pointer in \<open>HeadObjectOutput\<close>, and it is nil here.
\<close>

definition abc_src_no_length :: s3Client where
  "abc_src_no_length =
     abc_src\<lparr>HeadObject := \<lambda>i. Inr \<lparr>ContentLength = None, ContentType = Some ''text/plain'',
                                      Metadata = []\<rparr>\<rparr>"

definition abc_env_no_length :: Env where
  "abc_env_no_length = abc_env\<lparr>config_src := Inr abc_src_no_length\<rparr>"

text \<open>The state after the pool has run the three jobs, from the state at the start.\<close>

definition abc_final :: World where
  "abc_final = snd (worker abc_src abc_dst ''src'' ''dst'' abc_db abc_jobs (initial_world 0))"

section \<open>The pool, one step at a time\<close>

text \<open>
  The program points of one worker goroutine between two operations on shared state: a call
  of S3, a critical section of the mutex, the insert of the audit record. \<open>Idle\<close> is a worker
  at \<open>for job := range jobs\<close>, \<open>Exited\<close> one that has left the loop and run \<open>wg.Done()\<close>.
  The other points carry the local variables that are live there.
\<close>

datatype pc =
    Idle
  | Exited
  | AtCopy Job
  | AtCountDirect Job
  | AtHead Job
  | AtAddSize Job HeadObjectOutput int64
  | AtGet Job HeadObjectOutput
  | AtPut Job HeadObjectOutput GetObjectOutput
  | AtCountStreamed Job
  | AtCount Job "error option"
  | AtLog Job "error option"

text \<open>
  One step of one worker: \<open>moveObject\<close>, \<open>moveObjectFallback\<close> and the body of the loop of
  \<open>worker\<close>, cut at these points. Each critical section is one step, since the mutex lets no
  other worker in.
\<close>

fun worker_step ::
  "s3Client \<Rightarrow> s3Client \<Rightarrow> string \<Rightarrow> string \<Rightarrow> DB \<Rightarrow> pc \<Rightarrow> World \<Rightarrow> (abort + pc) \<times> World"
where
  "worker_step src dst srcBucket dstBucket db (AtCopy job) w =
    (let copySource = srcBucket @ ''/'' @ Key job;
         input = CopyObjectInput dstBucket (Key job) copySource ''COPY'' ''STANDARD'';
         w1 = issue (CallCopyObject input) w in
     case CopyObject src input of
       Some err \<Rightarrow> (Inr (AtHead job), w1)
     | None \<Rightarrow> (Inr (AtCountDirect job), w1))"
| "worker_step src dst srcBucket dstBucket db (AtCountDirect job) w =
    (Inr (AtCount job None),
     update_stats (\<lambda>s. s\<lparr>Method := increment ''server-side'' (Method s)\<rparr>) w)"
| "worker_step src dst srcBucket dstBucket db (AtHead job) w =
    (let w1 = issue (CallHeadObject (HeadObjectInput srcBucket (Key job))) w in
     case HeadObject src (HeadObjectInput srcBucket (Key job)) of
       Inl err \<Rightarrow> (Inr (AtCount job (Some (Errorf ''head object error: %w'' [ArgError err]))), w1)
     | Inr headObj \<Rightarrow>
        (case ContentLength headObj of
           None \<Rightarrow> (Inl NilDereference, w1)
         | Some fileSize \<Rightarrow> (Inr (AtAddSize job headObj fileSize), w1)))"
| "worker_step src dst srcBucket dstBucket db (AtAddSize job headObj fileSize) w =
    (let w2 = update_stats (\<lambda>s. s\<lparr>TotalSizeBytes := TotalSizeBytes s + fileSize\<rparr>) w in
     if 5 * 1024 * 1024 * 1024 <s fileSize
     then (Inr (AtCount job (Some (file_too_large fileSize))), w2)
     else (Inr (AtGet job headObj), w2))"
| "worker_step src dst srcBucket dstBucket db (AtGet job headObj) w =
    (let w3 = issue (CallGetObject (GetObjectInput srcBucket (Key job))) w in
     case GetObject src (GetObjectInput srcBucket (Key job)) of
       Inl err \<Rightarrow> (Inr (AtCount job (Some (Errorf ''get error: %w'' [ArgError err]))), w3)
     | Inr obj \<Rightarrow> (Inr (AtPut job headObj obj), w3))"
| "worker_step src dst srcBucket dstBucket db (AtPut job headObj obj) w =
    (let input = PutObjectInput dstBucket (Key job) (Body obj)
                   (ContentLength headObj) (ContentType headObj) (Metadata headObj);
         w4 = issue (CallPutObject input) w in
     case PutObject dst input of
       Some err \<Rightarrow> (Inr (AtCount job (Some (Errorf ''streaming put error: %w'' [ArgError err]))), w4)
     | None \<Rightarrow> (Inr (AtCountStreamed job), w4))"
| "worker_step src dst srcBucket dstBucket db (AtCountStreamed job) w =
    (Inr (AtCount job None),
     update_stats (\<lambda>s. s\<lparr>Method := increment ''streaming'' (Method s)\<rparr>) w)"
| "worker_step src dst srcBucket dstBucket db (AtCount job (Some e)) w =
    (Inr (AtLog job (Some e)), update_stats (\<lambda>s. s\<lparr>ErrorCount := ErrorCount s + 1\<rparr>) w)"
| "worker_step src dst srcBucket dstBucket db (AtCount job None) w =
    (Inr (AtLog job None), update_stats (\<lambda>s. s\<lparr>SuccessCount := SuccessCount s + 1\<rparr>) w)"
| "worker_step src dst srcBucket dstBucket db (AtLog job (Some e)) w =
    (Inr Idle, logToDB db (Key job) ''error'' (ErrorString e) w)"
| "worker_step src dst srcBucket dstBucket db (AtLog job None) w =
    (Inr Idle, logToDB db (Key job) ''success'' (Str ''moved'') w)"
| "worker_step src dst srcBucket dstBucket db Idle w = (Inr Idle, w)"
| "worker_step src dst srcBucket dstBucket db Exited w = (Inr Exited, w)"

text \<open>A worker left alone for \<open>n\<close> steps; it stops at a panic.\<close>

fun worker_steps ::
  "nat \<Rightarrow> s3Client \<Rightarrow> s3Client \<Rightarrow> string \<Rightarrow> string \<Rightarrow> DB \<Rightarrow> (abort + pc) \<times> World
     \<Rightarrow> (abort + pc) \<times> World"
where
  "worker_steps 0 src dst srcBucket dstBucket db c = c"
| "worker_steps (Suc n) src dst srcBucket dstBucket db (Inl a, w) = (Inl a, w)"
| "worker_steps (Suc n) src dst srcBucket dstBucket db (Inr p, w) =
     worker_steps n src dst srcBucket dstBucket db (worker_step src dst srcBucket dstBucket db p w)"

text \<open>
  The pool: the jobs not yet received (those in the channel and those \<open>main\<close> has yet to
  send, in order), the program point of each worker, the shared state, and the panic that
  ended the process, if any.
\<close>

record Pool =
  queue :: "Job list"
  goroutines :: "pc list"
  world :: World
  crashed :: "abort option"

text \<open>
  A step of the pool is a step of any one worker: it receives the next job, or leaves the loop
  once every job has been received and the channel is closed, or runs to its next program
  point, or panics, which ends the process.
\<close>

inductive pool_step :: "s3Client \<Rightarrow> s3Client \<Rightarrow> string \<Rightarrow> string \<Rightarrow> DB \<Rightarrow> Pool \<Rightarrow> Pool \<Rightarrow> bool"
  for src dst srcBucket dstBucket db
where
  receive:
    "\<lbrakk>crashed P = None; i < length (goroutines P); goroutines P ! i = Idle; queue P = job # rest\<rbrakk>
     \<Longrightarrow> pool_step src dst srcBucket dstBucket db P
           (P\<lparr>queue := rest, goroutines := (goroutines P)[i := AtCopy job]\<rparr>)"
| closed:
    "\<lbrakk>crashed P = None; i < length (goroutines P); goroutines P ! i = Idle; queue P = []\<rbrakk>
     \<Longrightarrow> pool_step src dst srcBucket dstBucket db P (P\<lparr>goroutines := (goroutines P)[i := Exited]\<rparr>)"
| run:
    "\<lbrakk>crashed P = None; i < length (goroutines P); goroutines P ! i = p; p \<noteq> Idle; p \<noteq> Exited;
      worker_step src dst srcBucket dstBucket db p (world P) = (Inr p', w')\<rbrakk>
     \<Longrightarrow> pool_step src dst srcBucket dstBucket db P
           (P\<lparr>goroutines := (goroutines P)[i := p'], world := w'\<rparr>)"
| panic:
    "\<lbrakk>crashed P = None; i < length (goroutines P); goroutines P ! i = p;
      worker_step src dst srcBucket dstBucket db p (world P) = (Inl a, w')\<rbrakk>
     \<Longrightarrow> pool_step src dst srcBucket dstBucket db P (P\<lparr>world := w', crashed := Some a\<rparr>)"

code_pred pool_step .

text \<open>
  What a worker at a program point has yet to do: whether it holds a job; whether it has
  counted a success or a failure whose audit record is not yet written; whether it has counted
  a method for a success it has not yet counted.
\<close>

fun in_flight :: "pc \<Rightarrow> nat" where
  "in_flight Idle = 0"
| "in_flight Exited = 0"
| "in_flight p = 1"

fun counted_success :: "pc \<Rightarrow> nat" where
  "counted_success (AtLog job None) = 1"
| "counted_success p = 0"

fun counted_failure :: "pc \<Rightarrow> nat" where
  "counted_failure (AtLog job (Some e)) = 1"
| "counted_failure p = 0"

fun method_ahead :: "pc \<Rightarrow> nat" where
  "method_ahead (AtCount job None) = 1"
| "method_ahead p = 0"

text \<open>
  The counters at any moment of the run of the pool, from the audit records written so far
  and the positions of the workers; \<open>njobs\<close> is the number of jobs handed to the pool.
\<close>

definition pool_inv :: "nat \<Rightarrow> Pool \<Rightarrow> bool" where
  "pool_inv njobs P =
    (SuccessCount (stats (world P))
       = of_nat (successes (dbExecs (world P)) + sum_list (map counted_success (goroutines P)))
     \<and> ErrorCount (stats (world P))
       = of_nat (failures (dbExecs (world P)) + sum_list (map counted_failure (goroutines P)))
     \<and> sum_list (map snd (Method (stats (world P))))
       = of_nat (successes (dbExecs (world P)) + sum_list (map counted_success (goroutines P))
                 + sum_list (map method_ahead (goroutines P)))
     \<and> ((Method (stats (world P)) = [])
        = (successes (dbExecs (world P)) + sum_list (map counted_success (goroutines P))
            + sum_list (map method_ahead (goroutines P)) = 0))
     \<and> successes (dbExecs (world P)) + failures (dbExecs (world P)) = length (dbExecs (world P))
     \<and> length (dbExecs (world P)) + sum_list (map in_flight (goroutines P)) + length (queue P) = njobs)"

text \<open>The pool as \<open>main\<close> starts it, and a pool in which no worker holds a job.\<close>

definition pool_init :: "nat \<Rightarrow> Job list \<Rightarrow> World \<Rightarrow> Pool" where
  "pool_init n jobs w = \<lparr>queue = jobs, goroutines = replicate n Idle, world = w, crashed = None\<rparr>"

definition no_job_in_flight :: "Pool \<Rightarrow> bool" where
  "no_job_in_flight P = list_all (\<lambda>p. p = Idle \<or> p = Exited) (goroutines P)"

section \<open>Counters below \<open>2 ^ 63\<close>\<close>

lemma sint_of_nat_small:
  assumes "n < 2 ^ 63"
  shows "sint (of_nat n :: int64) = int n"
proof -
  have "int n < 2 ^ 63"
    using assms by (metis of_nat_less_iff of_nat_numeral of_nat_power)
  moreover have "- (2 ^ 63) \<le> int n"
    by (rule order_trans [of _ 0]) simp_all
  ultimately show ?thesis
    by (simp add: signed_of_nat signed_take_bit_int_eq_self)
qed

lemma of_nat_small_eq_0:
  assumes "n < 2 ^ 63"
  shows "(of_nat n :: int64) = 0 \<longleftrightarrow> n = 0"
proof
  assume "(of_nat n :: int64) = 0"
  then have "sint (of_nat n :: int64) = 0" by simp
  with assms show "n = 0" by (simp add: sint_of_nat_small)
qed simp

lemma sless_of_nat_small:
  assumes "n < 2 ^ 63"
  shows "0 <s (of_nat n :: int64) \<longleftrightarrow> 0 < n"
  using assms by (simp add: word_sless_alt sint_of_nat_small)

section \<open>The method map\<close>

lemma sum_increment: "sum_list (map snd (increment k m)) = sum_list (map snd m) + 1"
  by (induction k m rule: increment.induct) auto

lemma increment_not_Nil: "increment k m \<noteq> []"
  by (cases m) (auto split: if_splits)

section \<open>What one job changes\<close>

lemma moveObjectFallback_frame:
  assumes "moveObjectFallback src dst sb db key w = (r, w')"
  shows "dbExecs w' = dbExecs w \<and> dbRows w' = dbRows w \<and> logs w' = logs w \<and> writes w' = writes w
     \<and> files w' = files w \<and> SuccessCount (stats w') = SuccessCount (stats w)
     \<and> ErrorCount (stats w') = ErrorCount (stats w) \<and> TotalFiles (stats w') = TotalFiles (stats w)
     \<and> StartTime (stats w') = StartTime (stats w) \<and> EndTime (stats w') = EndTime (stats w)"
  using assms
  by (auto simp: moveObjectFallback_def issue_def update_stats_def Let_def
      split: sum.splits option.splits if_splits)

lemma moveObjectFallback_Method:
  assumes "moveObjectFallback src dst sb db key w = (r, w')"
  shows "Method (stats w') =
    (if r = Inr None then increment ''streaming'' (Method (stats w)) else Method (stats w))"
  using assms
  by (auto simp: moveObjectFallback_def issue_def update_stats_def Let_def
      split: sum.splits option.splits if_splits)

lemma moveObject_frame:
  assumes "moveObject src dst sb db key w = (r, w')"
  shows "dbExecs w' = dbExecs w \<and> dbRows w' = dbRows w \<and> logs w' = logs w \<and> writes w' = writes w
     \<and> files w' = files w \<and> SuccessCount (stats w') = SuccessCount (stats w)
     \<and> ErrorCount (stats w') = ErrorCount (stats w) \<and> TotalFiles (stats w') = TotalFiles (stats w)
     \<and> StartTime (stats w') = StartTime (stats w) \<and> EndTime (stats w') = EndTime (stats w)"
proof (cases "CopyObject src (CopyObjectInput db key (sb @ ''/'' @ key) ''COPY'' ''STANDARD'')")
  case None
  with assms show ?thesis
    by (auto simp: moveObject_def issue_def update_stats_def Let_def)
next
  case (Some err)
  with assms have "moveObjectFallback src dst sb db key
      (issue (CallCopyObject (CopyObjectInput db key (sb @ ''/'' @ key) ''COPY'' ''STANDARD'')) w) = (r, w')"
    by (simp add: moveObject_def Let_def)
  from moveObjectFallback_frame [OF this] show ?thesis
    by (simp add: issue_def)
qed

lemma logToDB_frame:
  "stats (logToDB db key st msg w) = stats w \<and> s3calls (logToDB db key st msg w) = s3calls w
   \<and> writes (logToDB db key st msg w) = writes w \<and> files (logToDB db key st msg w) = files w
   \<and> dbExecs (logToDB db key st msg w) = dbExecs w @ [\<lparr>file_key = key, status = st, message = msg\<rparr>]"
  by (simp add: logToDB_def Let_def split: option.splits)

lemma record_outcome_None:
  "stats (record_outcome db job None w) = (stats w)\<lparr>SuccessCount := SuccessCount (stats w) + 1\<rparr>
   \<and> dbExecs (record_outcome db job None w)
       = dbExecs w @ [\<lparr>file_key = Key job, status = ''success'', message = Str ''moved''\<rparr>]
   \<and> s3calls (record_outcome db job None w) = s3calls w
   \<and> writes (record_outcome db job None w) = writes w
   \<and> files (record_outcome db job None w) = files w"
  by (simp add: record_outcome_def logToDB_frame update_stats_def)

lemma record_outcome_Some:
  "stats (record_outcome db job (Some e) w) = (stats w)\<lparr>ErrorCount := ErrorCount (stats w) + 1\<rparr>
   \<and> dbExecs (record_outcome db job (Some e) w)
       = dbExecs w @ [\<lparr>file_key = Key job, status = ''error'', message = ErrorString e\<rparr>]
   \<and> s3calls (record_outcome db job (Some e) w) = s3calls w
   \<and> writes (record_outcome db job (Some e) w) = writes w
   \<and> files (record_outcome db job (Some e) w) = files w"
  by (simp add: record_outcome_def logToDB_frame update_stats_def)

lemma moveObject_Method:
  assumes "moveObject src dst sb db key w = (r, w')"
  shows "(r = Inr None \<longrightarrow> Method (stats w') = increment ''server-side'' (Method (stats w))
                        \<or> Method (stats w') = increment ''streaming'' (Method (stats w)))
       \<and> (r \<noteq> Inr None \<longrightarrow> Method (stats w') = Method (stats w))"
proof (cases "CopyObject src (CopyObjectInput db key (sb @ ''/'' @ key) ''COPY'' ''STANDARD'')")
  case None
  with assms show ?thesis
    by (auto simp: moveObject_def issue_def update_stats_def Let_def)
next
  case (Some err)
  with assms have "moveObjectFallback src dst sb db key
      (issue (CallCopyObject (CopyObjectInput db key (sb @ ''/'' @ key) ''COPY'' ''STANDARD'')) w) = (r, w')"
    by (simp add: moveObject_def Let_def)
  from moveObjectFallback_Method [OF this] show ?thesis
    by (simp add: issue_def)
qed

text \<open>One job, from \<open>moveObject\<close> to the audit record.\<close>

lemma job_step:
  assumes mo: "moveObject src dst sb db (Key job) w = (Inr err, w1)"
    and w2: "w2 = record_outcome dbh job err w1"
  shows "\<exists>row. dbExecs w2 = dbExecs w @ [row] \<and> file_key row = Key job
           \<and> (status row = ''success'' \<or> status row = ''error'')
           \<and> (status row = ''success'' \<longleftrightarrow> err = None)
           \<and> SuccessCount (stats w2) = SuccessCount (stats w) + of_nat (successes [row])
           \<and> ErrorCount (stats w2) = ErrorCount (stats w) + of_nat (failures [row])
           \<and> successes [row] + failures [row] = 1
           \<and> sum_list (map snd (Method (stats w2)))
               = sum_list (map snd (Method (stats w))) + of_nat (successes [row])
           \<and> (Method (stats w2) = [] \<longleftrightarrow> Method (stats w) = [] \<and> successes [row] = 0)
           \<and> TotalFiles (stats w2) = TotalFiles (stats w)
           \<and> StartTime (stats w2) = StartTime (stats w)
           \<and> EndTime (stats w2) = EndTime (stats w)
           \<and> writes w2 = writes w \<and> files w2 = files w"
proof (cases err)
  case None
  from moveObject_Method [OF mo] None
  have M: "Method (stats w1) = increment ''server-side'' (Method (stats w))
            \<or> Method (stats w1) = increment ''streaming'' (Method (stats w))"
    by simp
  then have "sum_list (map snd (Method (stats w1))) = sum_list (map snd (Method (stats w))) + 1"
    and "Method (stats w1) \<noteq> []"
    by (auto simp: sum_increment increment_not_Nil)
  with moveObject_frame [OF mo] None show ?thesis
    unfolding w2
    by (intro exI [of _ "\<lparr>file_key = Key job, status = ''success'', message = Str ''moved''\<rparr>"])
       (simp add: record_outcome_None successes_def failures_def)
next
  case (Some e)
  from moveObject_Method [OF mo] Some
  have "Method (stats w1) = Method (stats w)" by simp
  with moveObject_frame [OF mo] Some show ?thesis
    unfolding w2
    by (intro exI [of _ "\<lparr>file_key = Key job, status = ''error'', message = ErrorString e\<rparr>"])
       (simp add: record_outcome_Some successes_def failures_def)
qed

lemma successes_Cons: "successes (r # rs) = successes [r] + successes rs"
  by (simp add: successes_def)

lemma failures_Cons: "failures (r # rs) = failures [r] + failures rs"
  by (simp add: failures_def)

text \<open>A worker that returns, on any list of jobs and from any state.\<close>

lemma worker_run:
  assumes "worker src dst sb db dbh jobs w = (None, w')"
  shows "\<exists>rows. dbExecs w' = dbExecs w @ rows \<and> map file_key rows = map Key jobs
           \<and> (\<forall>r \<in> set rows. status r = ''success'' \<or> status r = ''error'')
           \<and> SuccessCount (stats w') = SuccessCount (stats w) + of_nat (successes rows)
           \<and> ErrorCount (stats w') = ErrorCount (stats w) + of_nat (failures rows)
           \<and> successes rows + failures rows = length jobs
           \<and> sum_list (map snd (Method (stats w')))
               = sum_list (map snd (Method (stats w))) + of_nat (successes rows)
           \<and> (Method (stats w') = [] \<longleftrightarrow> Method (stats w) = [] \<and> successes rows = 0)
           \<and> TotalFiles (stats w') = TotalFiles (stats w)
           \<and> StartTime (stats w') = StartTime (stats w)
           \<and> EndTime (stats w') = EndTime (stats w)
           \<and> writes w' = writes w \<and> files w' = files w"
  using assms
proof (induction jobs arbitrary: w)
  case Nil
  then show ?case
    by (intro exI [of _ "[]"]) (simp add: successes_def failures_def)
next
  case (Cons job jobs)
  obtain r w1 where mo: "moveObject src dst sb db (Key job) w = (r, w1)"
    by (cases "moveObject src dst sb db (Key job) w")
  with Cons.prems obtain err where r: "r = Inr err"
    by (cases r) auto
  define w2 where "w2 = record_outcome dbh job err w1"
  from Cons.prems mo r have run: "worker src dst sb db dbh jobs w2 = (None, w')"
    by (simp add: w2_def)
  from job_step [OF mo [unfolded r] w2_def] obtain row where
    row: "dbExecs w2 = dbExecs w @ [row]" "file_key row = Key job"
      "status row = ''success'' \<or> status row = ''error''"
      "SuccessCount (stats w2) = SuccessCount (stats w) + of_nat (successes [row])"
      "ErrorCount (stats w2) = ErrorCount (stats w) + of_nat (failures [row])"
      "successes [row] + failures [row] = 1"
      "sum_list (map snd (Method (stats w2)))
         = sum_list (map snd (Method (stats w))) + of_nat (successes [row])"
      "Method (stats w2) = [] \<longleftrightarrow> Method (stats w) = [] \<and> successes [row] = 0"
      "TotalFiles (stats w2) = TotalFiles (stats w)"
      "StartTime (stats w2) = StartTime (stats w)"
      "EndTime (stats w2) = EndTime (stats w)"
      "writes w2 = writes w" "files w2 = files w"
    by blast
  from Cons.IH [OF run] obtain rows where
    rows: "dbExecs w' = dbExecs w2 @ rows" "map file_key rows = map Key jobs"
      "\<forall>r \<in> set rows. status r = ''success'' \<or> status r = ''error''"
      "SuccessCount (stats w') = SuccessCount (stats w2) + of_nat (successes rows)"
      "ErrorCount (stats w') = ErrorCount (stats w2) + of_nat (failures rows)"
      "successes rows + failures rows = length jobs"
      "sum_list (map snd (Method (stats w')))
         = sum_list (map snd (Method (stats w2))) + of_nat (successes rows)"
      "Method (stats w') = [] \<longleftrightarrow> Method (stats w2) = [] \<and> successes rows = 0"
      "TotalFiles (stats w') = TotalFiles (stats w2)"
      "StartTime (stats w') = StartTime (stats w2)"
      "EndTime (stats w') = EndTime (stats w2)"
      "writes w' = writes w2" "files w' = files w2"
    by blast
  show ?case
  proof (intro exI [of _ "row # rows"] conjI)
    show "dbExecs w' = dbExecs w @ row # rows" using row(1) rows(1) by simp
    show "map file_key (row # rows) = map Key (job # jobs)" using row(2) rows(2) by simp
    show "\<forall>r \<in> set (row # rows). status r = ''success'' \<or> status r = ''error''"
      using row(3) rows(3) by simp
    show "SuccessCount (stats w') = SuccessCount (stats w) + of_nat (successes (row # rows))"
      using row(4) rows(4) by (simp add: successes_Cons [of row rows])
    show "ErrorCount (stats w') = ErrorCount (stats w) + of_nat (failures (row # rows))"
      using row(5) rows(5) by (simp add: failures_Cons [of row rows])
    show "successes (row # rows) + failures (row # rows) = length (job # jobs)"
      using row(6) rows(6) by (simp add: successes_Cons [of row rows] failures_Cons [of row rows])
    show "sum_list (map snd (Method (stats w')))
            = sum_list (map snd (Method (stats w))) + of_nat (successes (row # rows))"
      using row(7) rows(7) by (simp add: successes_Cons [of row rows])
    show "Method (stats w') = [] \<longleftrightarrow> Method (stats w) = [] \<and> successes (row # rows) = 0"
      using row(8) rows(8) by (simp add: successes_Cons [of row rows])
    show "TotalFiles (stats w') = TotalFiles (stats w)" using row(9) rows(9) by simp
    show "StartTime (stats w') = StartTime (stats w)" using row(10) rows(10) by simp
    show "EndTime (stats w') = EndTime (stats w)" using row(11) rows(11) by simp
    show "writes w' = writes w" using row(12) rows(12) by simp
    show "files w' = files w" using row(13) rows(13) by simp
  qed
qed

lemma worker_append:
  "worker src dst sb db dbh (xs @ ys) w =
     (case worker src dst sb db dbh xs w of
        (Some a, v) \<Rightarrow> (Some a, v)
      | (None, v) \<Rightarrow> worker src dst sb db dbh ys v)"
  by (induction xs arbitrary: w) (auto split: prod.splits sum.splits option.splits)

lemma worker_take:
  assumes "worker src dst sb db dbh jobs w = (None, w')"
  shows "fst (worker src dst sb db dbh (take n jobs) w) = None"
proof -
  have "worker src dst sb db dbh (take n jobs @ drop n jobs) w = (None, w')"
    using assms by simp
  then show ?thesis
    unfolding worker_append by (auto split: prod.splits option.splits)
qed

section \<open>Startup and listing leave the counters alone\<close>

lemma testS3Connection_frame:
  "testS3Connection c b t w = (r, w') \<Longrightarrow>
     stats w' = stats w \<and> dbExecs w' = dbExecs w \<and> writes w' = writes w \<and> files w' = files w
     \<and> logs w' = logs w \<and> dbRows w' = dbRows w"
  by (auto simp: testS3Connection_def issue_def Let_def split: if_splits sum.splits)

lemma startup_frame:
  "startup env w = (r, w') \<Longrightarrow>
     stats w' = stats w \<and> dbExecs w' = dbExecs w \<and> writes w' = writes w \<and> files w' = files w
     \<and> logs w' = logs w \<and> dbRows w' = dbRows w"
  unfolding startup_def
  by (auto split: option.splits sum.splits prod.splits dest!: testS3Connection_frame)

lemma listKeys_loop_frame:
  assumes "listKeys_loop c b p ks t w = Some y"
  shows "stats (snd y) = stats w \<and> dbExecs (snd y) = dbExecs w \<and> writes (snd y) = writes w
     \<and> files (snd y) = files w \<and> logs (snd y) = logs w \<and> dbRows (snd y) = dbRows w"
  using assms
proof (induction rule: listKeys_loop.raw_induct [rotated 1, consumes 1])
  case (1 f c b p ks t w y)
  from "1.hyps" show ?case
    by (auto simp: issue_def Let_def split: sum.splits option.splits if_splits dest!: "1.IH")
qed

section \<open>The lister on a service that serves its pages\<close>

lemma append_keys_Some:
  "map ObjectKey objs = map Some ks' \<Longrightarrow> append_keys ks objs = Some (ks @ ks')"
proof (induction objs arbitrary: ks ks')
  case Nil
  then show ?case by simp
next
  case (Cons obj objs)
  then obtain k rest where "ks' = k # rest" "ObjectKey obj = Some k" "map ObjectKey objs = map Some rest"
    by (cases ks') auto
  with Cons.IH [of rest "ks @ [k]"] show ?case by simp
qed

lemma listKeys_loop_unfold:
  "listKeys_loop c b p ks t w =
    (case ListObjectsV2 c (page_request b p t) of
       Inl err \<Rightarrow> Some (Inl (Fatalf ''Unable to list objects: %v'' [ArgError err]),
                        issue (CallListObjectsV2 (page_request b p t)) w)
     | Inr resp \<Rightarrow>
        (case append_keys ks (Contents resp) of
           None \<Rightarrow> Some (Inl NilDereference, issue (CallListObjectsV2 (page_request b p t)) w)
         | Some keys' \<Rightarrow>
            if last_page resp then Some (Inr keys', issue (CallListObjectsV2 (page_request b p t)) w)
            else listKeys_loop c b p keys' (NextContinuationToken resp)
                   (issue (CallListObjectsV2 (page_request b p t)) w)))"
  by (subst listKeys_loop.simps) (unfold page_request_def last_page_def Let_def, rule refl)

lemma listKeys_loop_pages:
  assumes "pages_served c b p t pages"
    and "map ObjectKey (concat (map Contents pages)) = map Some ks'"
  shows "\<exists>w'. listKeys_loop c b p ks t w = Some (Inr (ks @ ks'), w')
            \<and> length (s3calls w') = length (s3calls w) + length pages"
  using assms
proof (induction pages arbitrary: t ks ks' w)
  case Nil
  then show ?case by simp
next
  case (Cons resp rest)
  from Cons.prems(2) obtain k1 k2 where ks': "ks' = k1 @ k2"
    and k1: "map ObjectKey (Contents resp) = map Some k1"
    and k2: "map ObjectKey (concat (map Contents rest)) = map Some k2"
    by (auto simp: append_eq_map_conv)
  from Cons.prems(1) have resp: "ListObjectsV2 c (page_request b p t) = Inr resp" by simp
  show ?case
  proof (cases "last_page resp")
    case True
    with Cons.prems(1) have "rest = []" by simp
    with k2 have "k2 = []" by simp
    with True resp k1 ks' \<open>rest = []\<close> show ?thesis
      by (subst listKeys_loop_unfold) (simp add: append_keys_Some issue_def)
  next
    case False
    with Cons.prems(1) have "pages_served c b p (NextContinuationToken resp) rest" by simp
    from Cons.IH [OF this k2, of "ks @ k1" "issue (CallListObjectsV2 (page_request b p t)) w"]
    obtain w' where "listKeys_loop c b p (ks @ k1) (NextContinuationToken resp)
          (issue (CallListObjectsV2 (page_request b p t)) w) = Some (Inr ((ks @ k1) @ k2), w')"
      and "length (s3calls w')
             = length (s3calls (issue (CallListObjectsV2 (page_request b p t)) w)) + length rest"
      by blast
    with False resp k1 ks' show ?thesis
      by (subst listKeys_loop_unfold) (simp add: append_keys_Some issue_def)
  qed
qed

lemma listKeys_loop_failure:
  assumes "pages_then_failure c b p t pages err"
    and "map ObjectKey (concat (map Contents pages)) = map Some ks'"
  shows "\<exists>w'. listKeys_loop c b p ks t w
              = Some (Inl (Fatalf ''Unable to list objects: %v'' [ArgError err]), w')"
  using assms
proof (induction pages arbitrary: t ks ks' w)
  case Nil
  then show ?case
    by (subst listKeys_loop_unfold) simp
next
  case (Cons resp rest)
  from Cons.prems(2) obtain k1 k2 where ks': "ks' = k1 @ k2"
    and k1: "map ObjectKey (Contents resp) = map Some k1"
    and k2: "map ObjectKey (concat (map Contents rest)) = map Some k2"
    by (auto simp: append_eq_map_conv)
  from Cons.prems(1) have resp: "ListObjectsV2 c (page_request b p t) = Inr resp"
    and more: "\<not> last_page resp"
    and rest: "pages_then_failure c b p (NextContinuationToken resp) rest err"
    by simp_all
  from Cons.IH [OF rest k2, of "ks @ k1" "issue (CallListObjectsV2 (page_request b p t)) w"]
  obtain w' where "listKeys_loop c b p (ks @ k1) (NextContinuationToken resp)
        (issue (CallListObjectsV2 (page_request b p t)) w)
          = Some (Inl (Fatalf ''Unable to list objects: %v'' [ArgError err]), w')"
    by blast
  with resp more k1 show ?case
    by (subst listKeys_loop_unfold) (simp add: append_keys_Some)
qed

lemma listKeys_loop_calls:
  assumes "listKeys_loop c b p ks t w = Some y"
  shows "filter (\<lambda>c. \<not> is_listing c) (s3calls (snd y)) = filter (\<lambda>c. \<not> is_listing c) (s3calls w)"
  using assms
proof (induction rule: listKeys_loop.raw_induct [rotated 1, consumes 1])
  case (1 f c b p ks t w y)
  from "1.hyps" show ?case
    by (auto simp: issue_def is_listing_def Let_def split: sum.splits option.splits if_splits
        dest!: "1.IH")
qed

section \<open>The transfer strategy: size limit and fallback\<close>

lemma moveObjectFallback_calls:
  "filter is_copy (s3calls (snd (moveObjectFallback src dst sb db key w))) = filter is_copy (s3calls w)"
  by (simp add: moveObjectFallback_def issue_def update_stats_def Let_def is_copy_def
      split: sum.splits option.splits)

lemma moveObjectFallback_client:
  assumes "HeadObject src' = HeadObject src" and "GetObject src' = GetObject src"
  shows "moveObjectFallback src' dst sb db key w = moveObjectFallback src dst sb db key w"
  unfolding moveObjectFallback_def assms by (rule refl)



text \<open>
  Claim C4. When the direct copy call returns an error, whatever the error is,
  \<open>moveObject\<close> returns what the streaming fallback returns, run after that one call:
  the copy is requested once and not again, and with any other error of the direct copy the
  result is the same, so the outcome of the job is that of the streaming path alone.
\<close>

theorem moveObject_falls_back:
  assumes "CopyObject src (CopyObjectInput dstBucket key (srcBucket @ ''/'' @ key) ''COPY'' ''STANDARD'')
             = Some err"
  shows "moveObject src dst srcBucket dstBucket key w
           = moveObjectFallback src dst srcBucket dstBucket key
               (issue (CallCopyObject
                  (CopyObjectInput dstBucket key (srcBucket @ ''/'' @ key) ''COPY'' ''STANDARD'')) w)
       \<and> filter is_copy (s3calls (snd (moveObject src dst srcBucket dstBucket key w)))
           = filter is_copy (s3calls w)
               @ [CallCopyObject
                    (CopyObjectInput dstBucket key (srcBucket @ ''/'' @ key) ''COPY'' ''STANDARD'')]
       \<and> (\<forall>src' err'.
             CopyObject src'
               (CopyObjectInput dstBucket key (srcBucket @ ''/'' @ key) ''COPY'' ''STANDARD'') = Some err'
             \<and> HeadObject src' = HeadObject src \<and> GetObject src' = GetObject src
             \<longrightarrow> moveObject src' dst srcBucket dstBucket key w
                   = moveObject src dst srcBucket dstBucket key w)"
proof -
  let ?input = "CopyObjectInput dstBucket key (srcBucket @ ''/'' @ key) ''COPY'' ''STANDARD''"
  have unfold: "moveObject c dst srcBucket dstBucket key w
           = moveObjectFallback c dst srcBucket dstBucket key (issue (CallCopyObject ?input) w)"
    if "CopyObject c ?input = Some e" for c e
    using that by (simp add: moveObject_def Let_def)
  have eq: "moveObject src dst srcBucket dstBucket key w
           = moveObjectFallback src dst srcBucket dstBucket key (issue (CallCopyObject ?input) w)"
    using assms by (rule unfold)
  have calls: "filter is_copy (s3calls (snd (moveObject src dst srcBucket dstBucket key w)))
           = filter is_copy (s3calls w) @ [CallCopyObject ?input]"
    unfolding eq moveObjectFallback_calls by (simp add: issue_def is_copy_def)
  have any: "moveObject src' dst srcBucket dstBucket key w = moveObject src dst srcBucket dstBucket key w"
    if c: "CopyObject src' ?input = Some err'" and h: "HeadObject src' = HeadObject src"
      and g: "GetObject src' = GetObject src" for src' err'
    unfolding unfold [OF c] eq by (rule moveObjectFallback_client [OF h g])
  from eq calls any show ?thesis by blast
qed

lemma abc_C_streams:
  "fst (moveObjectFallback abc_src abc_dst ''src'' ''dst'' ''C'' w) = Inr None"
  by (simp add: moveObjectFallback_def abc_src_def abc_dst_def abc_head_def Let_def)

theorem moveObject_falls_back_witness:
  "CopyObject abc_src (CopyObjectInput ''dst'' ''C'' (''src'' @ ''/'' @ ''C'') ''COPY'' ''STANDARD'')
      = Some (LibError ''AccessDenied'')
   \<and> moveObject abc_src abc_dst ''src'' ''dst'' ''C'' (initial_world 0)
       = moveObjectFallback abc_src abc_dst ''src'' ''dst'' ''C''
           (issue (CallCopyObject
              (CopyObjectInput ''dst'' ''C'' (''src'' @ ''/'' @ ''C'') ''COPY'' ''STANDARD''))
              (initial_world 0))
   \<and> fst (moveObject abc_src abc_dst ''src'' ''dst'' ''C'' (initial_world 0)) = Inr None
   \<and> CopyObject (abc_src\<lparr>CopyObject := \<lambda>i. Some (LibError ''SlowDown'')\<rparr>)
        (CopyObjectInput ''dst'' ''C'' (''src'' @ ''/'' @ ''C'') ''COPY'' ''STANDARD'')
      = Some (LibError ''SlowDown'')
   \<and> moveObject (abc_src\<lparr>CopyObject := \<lambda>i. Some (LibError ''SlowDown'')\<rparr>) abc_dst
        ''src'' ''dst'' ''C'' (initial_world 0)
       = moveObject abc_src abc_dst ''src'' ''dst'' ''C'' (initial_world 0)"
proof -
  let ?input = "CopyObjectInput ''dst'' ''C'' (''src'' @ ''/'' @ ''C'') ''COPY'' ''STANDARD''"
  let ?src' = "abc_src\<lparr>CopyObject := \<lambda>i. Some (LibError ''SlowDown'')\<rparr>"
  have c: "CopyObject abc_src ?input = Some (LibError ''AccessDenied'')"
    by (simp add: abc_src_def)
  have c': "CopyObject ?src' ?input = Some (LibError ''SlowDown'')"
    by simp
  note T = moveObject_falls_back [OF c, of abc_dst "initial_world 0"]
  have eq: "moveObject abc_src abc_dst ''src'' ''dst'' ''C'' (initial_world 0)
       = moveObjectFallback abc_src abc_dst ''src'' ''dst'' ''C''
           (issue (CallCopyObject ?input) (initial_world 0))"
    using T by (rule conjunct1)
  have ok: "fst (moveObject abc_src abc_dst ''src'' ''dst'' ''C'' (initial_world 0)) = Inr None"
    unfolding eq by (rule abc_C_streams)
  have "CopyObject ?src' ?input = Some (LibError ''SlowDown'')
          \<and> HeadObject ?src' = HeadObject abc_src \<and> GetObject ?src' = GetObject abc_src"
    by simp
  with T have same: "moveObject ?src' abc_dst ''src'' ''dst'' ''C'' (initial_world 0)
       = moveObject abc_src abc_dst ''src'' ''dst'' ''C'' (initial_world 0)"
    by blast
  from c eq ok c' same show ?thesis by blast
qed

section \<open>The counters after a run of the pool\<close>

lemma worker_single:
  assumes "worker src dst sb db dbh [job] v = (None, v')"
  shows "(SuccessCount (stats v') = SuccessCount (stats v) + 1
            \<and> ErrorCount (stats v') = ErrorCount (stats v)
            \<and> (Method (stats v') = increment ''server-side'' (Method (stats v))
               \<or> Method (stats v') = increment ''streaming'' (Method (stats v))))
       \<or> (SuccessCount (stats v') = SuccessCount (stats v)
            \<and> ErrorCount (stats v') = ErrorCount (stats v) + 1
            \<and> Method (stats v') = Method (stats v))"
proof -
  obtain r v1 where mo: "moveObject src dst sb db (Key job) v = (r, v1)"
    by (cases "moveObject src dst sb db (Key job) v")
  with assms obtain err where r: "r = Inr err" and v': "v' = record_outcome dbh job err v1"
    by (cases r) auto
  note frame = moveObject_frame [OF mo] and meth = moveObject_Method [OF mo]
  show ?thesis
  proof (cases err)
    case None
    with r meth have "Method (stats v1) = increment ''server-side'' (Method (stats v))
        \<or> Method (stats v1) = increment ''streaming'' (Method (stats v))"
      by simp
    with frame None show ?thesis
      unfolding v' by (simp add: record_outcome_None)
  next
    case (Some e)
    with r meth have "Method (stats v1) = Method (stats v)" by simp
    with frame Some show ?thesis
      unfolding v' by (simp add: record_outcome_Some)
  qed
qed

lemma worker_prefix_step:
  assumes run: "worker src dst sb db dbh jobs w = (None, w')" and n: "n < length jobs"
  shows "worker src dst sb db dbh [jobs ! n] (snd (worker src dst sb db dbh (take n jobs) w))
           = (None, snd (worker src dst sb db dbh (take (Suc n) jobs) w))"
proof -
  obtain v where v: "worker src dst sb db dbh (take n jobs) w = (None, v)"
    using worker_take [OF run, of n] by (cases "worker src dst sb db dbh (take n jobs) w") simp
  obtain v' where v': "worker src dst sb db dbh (take (Suc n) jobs) w = (None, v')"
    using worker_take [OF run, of "Suc n"]
    by (cases "worker src dst sb db dbh (take (Suc n) jobs) w") simp
  have "take (Suc n) jobs = take n jobs @ [jobs ! n]"
    using n by (rule take_Suc_conv_app_nth)
  with v' have "worker src dst sb db dbh (take n jobs @ [jobs ! n]) w = (None, v')" by simp
  then have "worker src dst sb db dbh [jobs ! n] v = (None, v')"
    unfolding worker_append v by simp
  with v v' show ?thesis by simp
qed

lemma worker_totals:
  assumes run: "worker src dst sb db dbh jobs w = (None, w')"
    and zero: "SuccessCount (stats w) = 0" "ErrorCount (stats w) = 0" "dbExecs w = []"
  shows "SuccessCount (stats w') = of_nat (successes (dbExecs w'))
       \<and> ErrorCount (stats w') = of_nat (failures (dbExecs w'))
       \<and> successes (dbExecs w') + failures (dbExecs w') = length jobs
       \<and> map file_key (dbExecs w') = map Key jobs
       \<and> (\<forall>r \<in> set (dbExecs w'). status r = ''success'' \<or> status r = ''error'')"
  using worker_run [OF run] zero by auto

lemma worker_sint_totals:
  assumes run: "worker src dst sb db dbh jobs w = (None, w')"
    and zero: "SuccessCount (stats w) = 0" "ErrorCount (stats w) = 0" "dbExecs w = []"
    and len: "length jobs < 2 ^ 63"
  shows "sint (SuccessCount (stats w')) = int (successes (dbExecs w'))
       \<and> sint (ErrorCount (stats w')) = int (failures (dbExecs w'))
       \<and> sint (SuccessCount (stats w')) + sint (ErrorCount (stats w')) = int (length jobs)
       \<and> length (dbExecs w') = length jobs"
proof -
  note t = worker_totals [OF run zero]
  from t have sum: "successes (dbExecs w') + failures (dbExecs w') = length jobs" by simp
  with len have s: "successes (dbExecs w') < 2 ^ 63" and f: "failures (dbExecs w') < 2 ^ 63"
    by simp_all
  from t have "length (map file_key (dbExecs w')) = length (map Key jobs)" by simp
  then have l: "length (dbExecs w') = length jobs" by simp
  from t have S: "sint (SuccessCount (stats w')) = int (successes (dbExecs w'))"
    by (simp add: sint_of_nat_small [OF s])
  from t have F: "sint (ErrorCount (stats w')) = int (failures (dbExecs w'))"
    by (simp add: sint_of_nat_small [OF f])
  from S F sum l show ?thesis
    by (metis of_nat_add)
qed

text \<open>
  Claim C1. For a run of the pool that completes, started with both counters at zero and
  an empty audit trail: the success count plus the error count is the number of jobs taken
  from the queue, which is the number of records handed to the audit sink, one per job and
  in the order of the jobs; the two counters are the numbers of records of each status.
  Each job adds one to exactly one of the two counters and leaves the other as it is, and
  after any number of completed jobs the sum of the counters is that number, so it never
  exceeds the total.
\<close>

theorem worker_counts_every_job_once:
  assumes run: "worker src dst srcBucket dstBucket db jobs w = (None, w')"
    and zero: "SuccessCount (stats w) = 0 \<and> ErrorCount (stats w) = 0 \<and> dbExecs w = []"
    and len: "length jobs < 2 ^ 63"
  shows "sint (SuccessCount (stats w')) + sint (ErrorCount (stats w')) = int (length jobs)
       \<and> length (dbExecs w') = length jobs
       \<and> map file_key (dbExecs w') = map Key jobs
       \<and> sint (SuccessCount (stats w')) = int (successes (dbExecs w'))
       \<and> sint (ErrorCount (stats w')) = int (failures (dbExecs w'))
       \<and> (\<forall>n < length jobs.
            (let v = snd (worker src dst srcBucket dstBucket db (take n jobs) w);
                 v' = snd (worker src dst srcBucket dstBucket db (take (Suc n) jobs) w)
             in (SuccessCount (stats v') = SuccessCount (stats v) + 1
                   \<and> ErrorCount (stats v') = ErrorCount (stats v))
              \<or> (SuccessCount (stats v') = SuccessCount (stats v)
                   \<and> ErrorCount (stats v') = ErrorCount (stats v) + 1)))
       \<and> (\<forall>n \<le> length jobs.
            (let v = snd (worker src dst srcBucket dstBucket db (take n jobs) w)
             in sint (SuccessCount (stats v)) + sint (ErrorCount (stats v)) = int n
                \<and> length (dbExecs v) = n))"
proof -
  from zero have z: "SuccessCount (stats w) = 0" "ErrorCount (stats w) = 0" "dbExecs w = []"
    by simp_all
  note whole = worker_sint_totals [OF run z len] and t = worker_totals [OF run z]
  have step: "(SuccessCount (stats v') = SuccessCount (stats v) + 1
                   \<and> ErrorCount (stats v') = ErrorCount (stats v))
              \<or> (SuccessCount (stats v') = SuccessCount (stats v)
                   \<and> ErrorCount (stats v') = ErrorCount (stats v) + 1)"
    if "n < length jobs"
      and "v = snd (worker src dst srcBucket dstBucket db (take n jobs) w)"
      and "v' = snd (worker src dst srcBucket dstBucket db (take (Suc n) jobs) w)" for n v v'
    using worker_single [OF worker_prefix_step [OF run that(1)]] that(2,3) by blast
  have prefix: "sint (SuccessCount (stats v)) + sint (ErrorCount (stats v)) = int n
                \<and> length (dbExecs v) = n"
    if n: "n \<le> length jobs"
      and v: "v = snd (worker src dst srcBucket dstBucket db (take n jobs) w)" for n v
  proof -
    have "worker src dst srcBucket dstBucket db (take n jobs) w = (None, v)"
      using worker_take [OF run, of n] v
      by (cases "worker src dst srcBucket dstBucket db (take n jobs) w") simp
    moreover have "length (take n jobs) < 2 ^ 63" using len by simp
    ultimately show ?thesis
      using worker_sint_totals [of src dst srcBucket dstBucket db "take n jobs" w v] z n
      by simp
  qed
  from whole t step prefix show ?thesis
    unfolding Let_def by blast
qed

section \<open>The jobs never end the process when every object reports its length\<close>

lemma moveObject_no_abort:
  assumes "\<forall>i h. HeadObject src i = Inr h \<longrightarrow> ContentLength h \<noteq> None"
  shows "\<exists>err. fst (moveObject src dst sb db key w) = Inr err"
proof (cases "HeadObject src (HeadObjectInput sb key)")
  case (Inl e)
  then show ?thesis
    by (simp add: moveObject_def moveObjectFallback_def Let_def split: option.splits)
next
  case (Inr h)
  with assms obtain n where "ContentLength h = Some n" by auto
  with Inr show ?thesis
    by (simp add: moveObject_def moveObjectFallback_def Let_def split: option.splits sum.splits)
qed

lemma worker_returns:
  assumes "\<forall>i h. HeadObject src i = Inr h \<longrightarrow> ContentLength h \<noteq> None"
  shows "fst (worker src dst sb db dbh jobs w) = None"
proof (induction jobs arbitrary: w)
  case Nil
  show ?case by simp
next
  case (Cons job jobs)
  from moveObject_no_abort [OF assms, of dst sb db "Key job" w]
  obtain err w1 where "moveObject src dst sb db (Key job) w = (Inr err, w1)"
    by (cases "moveObject src dst sb db (Key job) w") auto
  with Cons.IH show ?case by simp
qed

lemma abc_src_lengths: "\<forall>i h. HeadObject abc_src i = Inr h \<longrightarrow> ContentLength h \<noteq> None"
  by (simp add: abc_src_def abc_head_def)

lemma abc_run: "worker abc_src abc_dst ''src'' ''dst'' dbh abc_jobs (initial_world 0)
                  = (None, snd (worker abc_src abc_dst ''src'' ''dst'' dbh abc_jobs (initial_world 0)))"
  using worker_returns [OF abc_src_lengths, of abc_dst "''src''" "''dst''" dbh abc_jobs "initial_world 0"]
  by (cases "worker abc_src abc_dst ''src'' ''dst'' dbh abc_jobs (initial_world 0)") simp

lemma initial_world_zero:
  "SuccessCount (stats (initial_world t)) = 0 \<and> ErrorCount (stats (initial_world t)) = 0
   \<and> dbExecs (initial_world t) = []"
  by (simp add: initial_world_def)

theorem worker_counts_every_job_once_witness:
  "worker abc_src abc_dst ''src'' ''dst'' abc_db abc_jobs (initial_world 0) = (None, abc_final)
   \<and> (SuccessCount (stats (initial_world 0)) = 0 \<and> ErrorCount (stats (initial_world 0)) = 0
       \<and> dbExecs (initial_world 0) = [])
   \<and> length abc_jobs < 2 ^ 63
   \<and> sint (SuccessCount (stats abc_final)) + sint (ErrorCount (stats abc_final)) = 3
   \<and> length (dbExecs abc_final) = 3
   \<and> map file_key (dbExecs abc_final) = [''A'', ''B'', ''C'']"
proof -
  have run: "worker abc_src abc_dst ''src'' ''dst'' abc_db abc_jobs (initial_world 0) = (None, abc_final)"
    unfolding abc_final_def by (rule abc_run)
  have len: "length abc_jobs < 2 ^ 63" by (simp add: abc_jobs_def)
  note T = worker_counts_every_job_once [OF run initial_world_zero len]
  from T have "sint (SuccessCount (stats abc_final)) + sint (ErrorCount (stats abc_final))
        = int (length abc_jobs)"
    and "length (dbExecs abc_final) = length abc_jobs"
    and "map file_key (dbExecs abc_final) = map Key abc_jobs"
    by blast+
  with run len initial_world_zero [of 0] show ?thesis
    by (simp add: abc_jobs_def)
qed

section \<open>The per-method counts\<close>

lemma worker_method_totals:
  assumes run: "worker src dst sb db dbh jobs w = (None, w')"
    and zero: "SuccessCount (stats w) = 0" "Method (stats w) = []"
    and len: "length jobs < 2 ^ 63"
  shows "sum_list (map snd (Method (stats w'))) = SuccessCount (stats w')
       \<and> (SuccessCount (stats w') = 0 \<longleftrightarrow> Method (stats w') = [])"
proof -
  from worker_run [OF run] obtain rows where
    S: "SuccessCount (stats w') = SuccessCount (stats w) + of_nat (successes rows)"
    and n: "successes rows + failures rows = length jobs"
    and M: "sum_list (map snd (Method (stats w')))
              = sum_list (map snd (Method (stats w))) + of_nat (successes rows)"
    and E: "Method (stats w') = [] \<longleftrightarrow> Method (stats w) = [] \<and> successes rows = 0"
    by blast
  from n len have "successes rows < 2 ^ 63" by simp
  then have "(of_nat (successes rows) :: int64) = 0 \<longleftrightarrow> successes rows = 0"
    by (rule of_nat_small_eq_0)
  with S M E zero show ?thesis by simp
qed

lemma methodLines_empty: "Method st = [] \<Longrightarrow> methodLines (summary st a b c) = []"
  by (simp add: summary_def Let_def)

text \<open>The count of each method after \<open>stats.Method[k]++\<close>.\<close>

lemma method_count_increment:
  "method_count k' (increment k m) = method_count k' m + (if k' = k then 1 else 0)"
  by (induction m) (auto simp: method_count_def)

text \<open>The method that a transfer records, and what one job leaves behind.\<close>

lemma moveObject_Method_by_path:
  assumes "moveObject src dst sb db key w = (Inr None, w')"
  shows "Method (stats w') =
    increment (if CopyObject src (CopyObjectInput db key (sb @ ''/'' @ key) ''COPY'' ''STANDARD'') = None
               then ''server-side'' else ''streaming'') (Method (stats w))"
proof (cases "CopyObject src (CopyObjectInput db key (sb @ ''/'' @ key) ''COPY'' ''STANDARD'')")
  case None
  with assms show ?thesis
    by (auto simp: moveObject_def issue_def update_stats_def Let_def)
next
  case (Some err)
  with assms have "moveObjectFallback src dst sb db key
      (issue (CallCopyObject (CopyObjectInput db key (sb @ ''/'' @ key) ''COPY'' ''STANDARD'')) w)
        = (Inr None, w')"
    by (simp add: moveObject_def Let_def)
  from moveObjectFallback_Method [OF this] Some show ?thesis
    by (simp add: issue_def)
qed

lemma worker_job_outcome:
  assumes "worker src dst sb db dbh [job] v = (None, v')"
  shows "case fst (moveObject src dst sb db (Key job) v) of
           Inl a \<Rightarrow> False
         | Inr None \<Rightarrow>
             SuccessCount (stats v') = SuccessCount (stats v) + 1
             \<and> Method (stats v') =
                 increment (if CopyObject src (CopyObjectInput db (Key job) (sb @ ''/'' @ Key job)
                                 ''COPY'' ''STANDARD'') = None
                            then ''server-side'' else ''streaming'') (Method (stats v))
             \<and> dbExecs v' = dbExecs v
                 @ [\<lparr>file_key = Key job, status = ''success'', message = Str ''moved''\<rparr>]
         | Inr (Some e) \<Rightarrow>
             SuccessCount (stats v') = SuccessCount (stats v)
             \<and> Method (stats v') = Method (stats v)
             \<and> dbExecs v' = dbExecs v
                 @ [\<lparr>file_key = Key job, status = ''error'', message = ErrorString e\<rparr>]"
proof -
  obtain r v1 where mo: "moveObject src dst sb db (Key job) v = (r, v1)"
    by (cases "moveObject src dst sb db (Key job) v")
  with assms obtain err where r: "r = Inr err" and v': "v' = record_outcome dbh job err v1"
    by (cases r) auto
  note frame = moveObject_frame [OF mo]
  show ?thesis
  proof (cases err)
    case None
    from moveObject_Method_by_path [OF mo [unfolded r None]] frame mo r None show ?thesis
      unfolding v' by (simp add: record_outcome_None)
  next
    case (Some e)
    from moveObject_Method [OF mo] r Some have "Method (stats v1) = Method (stats v)" by simp
    with frame mo r Some show ?thesis
      unfolding v' by (simp add: record_outcome_Some)
  qed
qed

text \<open>
  Claim C10. For a run of the pool started with the success count at zero and an empty
  method map: after any number of completed jobs, the per-method counts add up to the
  success count, and when the success count is zero the map is empty, so that the report
  has no per-method line. A job whose transfer succeeds adds one to the success count and to
  the count of exactly one method, \<open>server-side\<close> when the direct copy succeeded and
  \<open>streaming\<close> otherwise, leaves the count of every other method as it is, and is recorded
  as a success; a job whose transfer fails leaves the success count and the map as they are
  and is recorded as an error.
\<close>

theorem method_counts_sum_to_successes:
  assumes run: "worker src dst srcBucket dstBucket db jobs w = (None, w')"
    and zero: "SuccessCount (stats w) = 0 \<and> Method (stats w) = []"
    and len: "length jobs < 2 ^ 63"
  shows "(\<forall>n \<le> length jobs.
            (let v = snd (worker src dst srcBucket dstBucket db (take n jobs) w)
             in sum_list (map snd (Method (stats v))) = SuccessCount (stats v)
                \<and> (SuccessCount (stats v) = 0 \<longrightarrow>
                      Method (stats v) = []
                      \<and> methodLines (summary (stats v) srcBucket dstBucket workers) = [])))
       \<and> (\<forall>n < length jobs.
            (let job = jobs ! n;
                 v = snd (worker src dst srcBucket dstBucket db (take n jobs) w);
                 v' = snd (worker src dst srcBucket dstBucket db (take (Suc n) jobs) w);
                 used = (if CopyObject src (CopyObjectInput dstBucket (Key job)
                                 (srcBucket @ ''/'' @ Key job) ''COPY'' ''STANDARD'') = None
                           then ''server-side'' else ''streaming'')
             in case fst (moveObject src dst srcBucket dstBucket (Key job) v) of
                  Inl a \<Rightarrow> False
                | Inr None \<Rightarrow>
                    SuccessCount (stats v') = SuccessCount (stats v) + 1
                    \<and> Method (stats v') = increment used (Method (stats v))
                    \<and> (\<forall>k. method_count k (Method (stats v'))
                            = method_count k (Method (stats v)) + (if k = used then 1 else 0))
                    \<and> dbExecs v' = dbExecs v
                        @ [\<lparr>file_key = Key job, status = ''success'', message = Str ''moved''\<rparr>]
                | Inr (Some e) \<Rightarrow>
                    SuccessCount (stats v') = SuccessCount (stats v)
                    \<and> Method (stats v') = Method (stats v)
                    \<and> dbExecs v' = dbExecs v
                        @ [\<lparr>file_key = Key job, status = ''error'', message = ErrorString e\<rparr>]))"
proof -
  from zero have z: "SuccessCount (stats w) = 0" "Method (stats w) = []" by simp_all
  have prefix: "sum_list (map snd (Method (stats v))) = SuccessCount (stats v)
                \<and> (SuccessCount (stats v) = 0 \<longrightarrow>
                      Method (stats v) = []
                      \<and> methodLines (summary (stats v) srcBucket dstBucket workers) = [])"
    if n: "n \<le> length jobs"
      and v: "v = snd (worker src dst srcBucket dstBucket db (take n jobs) w)" for n v
  proof -
    have A: "worker src dst srcBucket dstBucket db (take n jobs) w = (None, v)"
      using worker_take [OF run, of n] v
      by (cases "worker src dst srcBucket dstBucket db (take n jobs) w") simp
    have B: "length (take n jobs) < 2 ^ 63" using len by simp
    from worker_method_totals [OF A z B] show ?thesis
      by (simp add: methodLines_empty)
  qed
  have step: "case fst (moveObject src dst srcBucket dstBucket (Key job) v) of
                  Inl a \<Rightarrow> False
                | Inr None \<Rightarrow>
                    SuccessCount (stats v') = SuccessCount (stats v) + 1
                    \<and> Method (stats v') = increment used (Method (stats v))
                    \<and> (\<forall>k. method_count k (Method (stats v'))
                            = method_count k (Method (stats v)) + (if k = used then 1 else 0))
                    \<and> dbExecs v' = dbExecs v
                        @ [\<lparr>file_key = Key job, status = ''success'', message = Str ''moved''\<rparr>]
                | Inr (Some e) \<Rightarrow>
                    SuccessCount (stats v') = SuccessCount (stats v)
                    \<and> Method (stats v') = Method (stats v)
                    \<and> dbExecs v' = dbExecs v
                        @ [\<lparr>file_key = Key job, status = ''error'', message = ErrorString e\<rparr>]"
    if "n < length jobs" and "job = jobs ! n"
      and "v = snd (worker src dst srcBucket dstBucket db (take n jobs) w)"
      and "v' = snd (worker src dst srcBucket dstBucket db (take (Suc n) jobs) w)"
      and "used = (if CopyObject src (CopyObjectInput dstBucket (Key job)
                                 (srcBucket @ ''/'' @ Key job) ''COPY'' ''STANDARD'') = None
                           then ''server-side'' else ''streaming'')"
    for n job v v' used
    using worker_job_outcome [OF worker_prefix_step [OF run that(1)]] that(2-5)
    by (simp add: method_count_increment split: sum.splits option.splits)
  from prefix step show ?thesis
    unfolding Let_def by blast
qed

lemma initial_world_fresh:
  "SuccessCount (stats (initial_world t)) = 0 \<and> Method (stats (initial_world t)) = []"
  by (simp add: initial_world_def)

text \<open>The three jobs of the run on three objects, from any state.\<close>

lemma abc_A: "moveObject abc_src abc_dst ''src'' ''dst'' ''A'' w
  = (Inr None, update_stats (\<lambda>s. s\<lparr>Method := increment ''server-side'' (Method s)\<rparr>)
       (issue (CallCopyObject (CopyObjectInput ''dst'' ''A'' ''src/A'' ''COPY'' ''STANDARD'')) w))"
  by (simp add: moveObject_def abc_src_def Let_def)

lemma abc_B: "moveObject abc_src abc_dst ''src'' ''dst'' ''B'' w
  = (Inr (Some (file_too_large (10 * 1024 * 1024 * 1024))),
     update_stats (\<lambda>s. s\<lparr>TotalSizeBytes := TotalSizeBytes s + 10 * 1024 * 1024 * 1024\<rparr>)
       (issue (CallHeadObject (HeadObjectInput ''src'' ''B''))
          (issue (CallCopyObject (CopyObjectInput ''dst'' ''B'' ''src/B'' ''COPY'' ''STANDARD'')) w)))"
  by (simp add: moveObject_def moveObjectFallback_def abc_src_def abc_head_def Let_def)

lemma abc_C: "moveObject abc_src abc_dst ''src'' ''dst'' ''C'' w
  = (Inr None,
     update_stats (\<lambda>s. s\<lparr>Method := increment ''streaming'' (Method s)\<rparr>)
       (issue (CallPutObject (PutObjectInput ''dst'' ''C'' ''bytes'' (Some (10 * 1024 * 1024))
                 (Some ''text/plain'') []))
          (issue (CallGetObject (GetObjectInput ''src'' ''C''))
             (update_stats (\<lambda>s. s\<lparr>TotalSizeBytes := TotalSizeBytes s + 10 * 1024 * 1024\<rparr>)
                (issue (CallHeadObject (HeadObjectInput ''src'' ''C''))
                   (issue (CallCopyObject
                      (CopyObjectInput ''dst'' ''C'' ''src/C'' ''COPY'' ''STANDARD'')) w))))))"
  by (simp add: moveObject_def moveObjectFallback_def abc_src_def abc_dst_def abc_head_def Let_def)

theorem method_counts_sum_to_successes_witness:
  "worker abc_src abc_dst ''src'' ''dst'' abc_db abc_jobs (initial_world 0) = (None, abc_final)
   \<and> (SuccessCount (stats (initial_world 0)) = 0 \<and> Method (stats (initial_world 0)) = [])
   \<and> length abc_jobs < 2 ^ 63
   \<and> fst (moveObject abc_src abc_dst ''src'' ''dst'' ''A'' (initial_world 0)) = Inr None
   \<and> SuccessCount (stats (snd (worker abc_src abc_dst ''src'' ''dst'' abc_db
         [\<lparr>Key = ''A''\<rparr>] (initial_world 0)))) = 1
   \<and> Method (stats (snd (worker abc_src abc_dst ''src'' ''dst'' abc_db
         [\<lparr>Key = ''A''\<rparr>] (initial_world 0)))) = [(''server-side'', 1)]
   \<and> fst (moveObject abc_src abc_dst ''src'' ''dst'' ''B''
         (snd (worker abc_src abc_dst ''src'' ''dst'' abc_db [\<lparr>Key = ''A''\<rparr>] (initial_world 0))))
       = Inr (Some (file_too_large (10 * 1024 * 1024 * 1024)))
   \<and> SuccessCount (stats (snd (worker abc_src abc_dst ''src'' ''dst'' abc_db
         [\<lparr>Key = ''A''\<rparr>, \<lparr>Key = ''B''\<rparr>] (initial_world 0)))) = 1
   \<and> Method (stats (snd (worker abc_src abc_dst ''src'' ''dst'' abc_db
         [\<lparr>Key = ''A''\<rparr>, \<lparr>Key = ''B''\<rparr>] (initial_world 0)))) = [(''server-side'', 1)]
   \<and> fst (moveObject abc_src abc_dst ''src'' ''dst'' ''C''
         (snd (worker abc_src abc_dst ''src'' ''dst'' abc_db
            [\<lparr>Key = ''A''\<rparr>, \<lparr>Key = ''B''\<rparr>] (initial_world 0)))) = Inr None
   \<and> SuccessCount (stats abc_final) = 2
   \<and> Method (stats abc_final) = [(''server-side'', 1), (''streaming'', 1)]
   \<and> sum_list (map snd (Method (stats abc_final))) = SuccessCount (stats abc_final)
   \<and> method_count ''server-side'' (Method (stats abc_final)) = 1
   \<and> method_count ''streaming'' (Method (stats abc_final)) = 1
   \<and> map status (dbExecs abc_final) = [''success'', ''error'', ''success'']"
proof -
  let ?w0 = "initial_world 0"
  let ?v1 = "snd (worker abc_src abc_dst ''src'' ''dst'' abc_db [\<lparr>Key = ''A''\<rparr>] ?w0)"
  let ?v2 = "snd (worker abc_src abc_dst ''src'' ''dst'' abc_db
                [\<lparr>Key = ''A''\<rparr>, \<lparr>Key = ''B''\<rparr>] ?w0)"
  have run: "worker abc_src abc_dst ''src'' ''dst'' abc_db abc_jobs ?w0 = (None, abc_final)"
    unfolding abc_final_def by (rule abc_run)
  have len: "length abc_jobs < 2 ^ 63" by (simp add: abc_jobs_def)
  have fresh: "SuccessCount (stats ?w0) = 0 \<and> Method (stats ?w0) = []"
    by (rule initial_world_fresh)
  have w0: "dbExecs ?w0 = []" by (simp add: initial_world_def)
  note T = method_counts_sum_to_successes [OF run fresh len, where workers = 25]
  note T1 = T [THEN conjunct1, unfolded Let_def] and T2 = T [THEN conjunct2, unfolded Let_def]
  have l: "length abc_jobs = 3" by (simp add: abc_jobs_def)
  have tk: "take 0 abc_jobs = []" "take (Suc 0) abc_jobs = [\<lparr>Key = ''A''\<rparr>]"
    "take 2 abc_jobs = [\<lparr>Key = ''A''\<rparr>, \<lparr>Key = ''B''\<rparr>]" "take 3 abc_jobs = abc_jobs"
    "take 1 abc_jobs = [\<lparr>Key = ''A''\<rparr>]"
    "take (Suc (Suc 0)) abc_jobs = [\<lparr>Key = ''A''\<rparr>, \<lparr>Key = ''B''\<rparr>]"
    "take (Suc (Suc (Suc 0))) abc_jobs = abc_jobs"
    "take (Suc 1) abc_jobs = [\<lparr>Key = ''A''\<rparr>, \<lparr>Key = ''B''\<rparr>]"
    "take (Suc 2) abc_jobs = abc_jobs"
    by (simp_all add: abc_jobs_def)
  have nt: "abc_jobs ! 0 = \<lparr>Key = ''A''\<rparr>" "abc_jobs ! 1 = \<lparr>Key = ''B''\<rparr>"
    "abc_jobs ! Suc 0 = \<lparr>Key = ''B''\<rparr>"
    "abc_jobs ! Suc (Suc 0) = \<lparr>Key = ''C''\<rparr>"
    "abc_jobs ! 2 = \<lparr>Key = ''C''\<rparr>"
    by (simp_all add: abc_jobs_def)
  have cp: "CopyObject abc_src (CopyObjectInput ''dst'' ''A'' ''src/A'' ''COPY'' ''STANDARD'') = None"
    "CopyObject abc_src (CopyObjectInput ''dst'' ''C'' ''src/C'' ''COPY'' ''STANDARD'') \<noteq> None"
    by (simp_all add: abc_src_def)
  have fin: "snd (worker abc_src abc_dst ''src'' ''dst'' abc_db abc_jobs ?w0) = abc_final"
    by (simp add: abc_final_def)
  have e: "snd (worker abc_src abc_dst ''src'' ''dst'' abc_db [] ?w0) = ?w0" by simp
  from T2 [THEN spec, of 0]
  have a: "SuccessCount (stats ?v1) = 1 \<and> Method (stats ?v1) = [(''server-side'', 1)]
      \<and> dbExecs ?v1 = [\<lparr>file_key = ''A'', status = ''success'', message = Str ''moved''\<rparr>]"
    using fresh w0 by (simp add: l tk nt cp e abc_A del: worker.simps)
  from T2 [THEN spec, of 1]
  have b: "SuccessCount (stats ?v2) = SuccessCount (stats ?v1) \<and> Method (stats ?v2) = Method (stats ?v1)
      \<and> dbExecs ?v2 = dbExecs ?v1 @ [\<lparr>file_key = ''B'', status = ''error'',
            message = ErrorString (file_too_large (10 * 1024 * 1024 * 1024))\<rparr>]"
    by (simp add: l tk nt abc_B del: worker.simps)
  from T2 [THEN spec, of 2]
  have c: "SuccessCount (stats abc_final) = SuccessCount (stats ?v2) + 1
      \<and> Method (stats abc_final) = increment ''streaming'' (Method (stats ?v2))
      \<and> dbExecs abc_final = dbExecs ?v2
           @ [\<lparr>file_key = ''C'', status = ''success'', message = Str ''moved''\<rparr>]"
    using cp(2) by (simp add: l tk nt fin abc_C del: worker.simps)
  from T1 [THEN spec, of 3]
  have d: "sum_list (map snd (Method (stats abc_final))) = SuccessCount (stats abc_final)"
    by (simp add: l tk fin del: worker.simps)
  have mA: "fst (moveObject abc_src abc_dst ''src'' ''dst'' ''A'' ?w0) = Inr None"
    by (simp add: abc_A)
  have mB: "fst (moveObject abc_src abc_dst ''src'' ''dst'' ''B'' ?v1)
      = Inr (Some (file_too_large (10 * 1024 * 1024 * 1024)))"
    by (simp add: abc_B del: worker.simps)
  have mC: "fst (moveObject abc_src abc_dst ''src'' ''dst'' ''C'' ?v2) = Inr None"
    by (simp add: abc_C del: worker.simps)
  from a b c have S: "SuccessCount (stats abc_final) = 2"
    and M: "Method (stats abc_final) = [(''server-side'', 1), (''streaming'', 1)]"
    and R: "map status (dbExecs abc_final) = [''success'', ''error'', ''success'']"
    by simp_all
  from M have k: "method_count ''server-side'' (Method (stats abc_final)) = 1"
      "method_count ''streaming'' (Method (stats abc_final)) = 1"
    by (simp_all add: method_count_def)
  from run fresh len mA a mB b mC S M d k R show ?thesis
    by simp
qed

section \<open>The audit sink is outside the outcome of a job\<close>

lemma moveObjectFallback_same:
  assumes "same_outcome v v'"
  shows "fst (moveObjectFallback src dst sb db key v) = fst (moveObjectFallback src dst sb db key v')
       \<and> same_outcome (snd (moveObjectFallback src dst sb db key v))
                      (snd (moveObjectFallback src dst sb db key v'))"
  using assms
  by (simp add: moveObjectFallback_def issue_def update_stats_def Let_def same_outcome_def
      split: sum.splits option.splits)

lemma moveObject_same:
  assumes "same_outcome v v'"
  shows "fst (moveObject src dst sb db key v) = fst (moveObject src dst sb db key v')
       \<and> same_outcome (snd (moveObject src dst sb db key v)) (snd (moveObject src dst sb db key v'))"
proof (cases "CopyObject src (CopyObjectInput db key (sb @ ''/'' @ key) ''COPY'' ''STANDARD'')")
  case None
  with assms show ?thesis
    by (simp add: moveObject_def issue_def update_stats_def Let_def same_outcome_def)
next
  case (Some err)
  let ?c = "CallCopyObject (CopyObjectInput db key (sb @ ''/'' @ key) ''COPY'' ''STANDARD'')"
  from assms have "same_outcome (issue ?c v) (issue ?c v')"
    by (simp add: same_outcome_def issue_def)
  from moveObjectFallback_same [OF this] Some show ?thesis
    by (simp add: moveObject_def Let_def)
qed

lemma record_outcome_same:
  assumes "same_outcome v v'"
  shows "same_outcome (record_outcome dbh job err v) (record_outcome dbh' job err v')"
  using assms
  by (cases err) (simp_all add: same_outcome_def record_outcome_None record_outcome_Some)

lemma worker_same:
  assumes "same_outcome v v'"
  shows "fst (worker src dst sb db dbh jobs v) = fst (worker src dst sb db dbh' jobs v')
       \<and> same_outcome (snd (worker src dst sb db dbh jobs v)) (snd (worker src dst sb db dbh' jobs v'))"
  using assms
proof (induction jobs arbitrary: v v')
  case Nil
  then show ?case by simp
next
  case (Cons job jobs)
  obtain r v1 where m: "moveObject src dst sb db (Key job) v = (r, v1)"
    by (cases "moveObject src dst sb db (Key job) v")
  obtain r' v1' where m': "moveObject src dst sb db (Key job) v' = (r', v1')"
    by (cases "moveObject src dst sb db (Key job) v'")
  from moveObject_same [OF Cons.prems, of src dst sb db "Key job"] m m'
  have r: "r' = r" and s1: "same_outcome v1 v1'" by simp_all
  show ?case
  proof (cases r)
    case (Inl a)
    with m m' r s1 show ?thesis by simp
  next
    case (Inr err)
    from record_outcome_same [OF s1, of dbh job err dbh']
    have "same_outcome (record_outcome dbh job err v1) (record_outcome dbh' job err v1')" .
    from Cons.IH [OF this] m m' r Inr show ?thesis by simp
  qed
qed

lemma logToDB_failure:
  assumes "Exec dbh \<lparr>file_key = key, status = st, message = msg\<rparr> = Some err"
  shows "logs (logToDB dbh key st msg v)
           = logs v @ [(''DB insert failed for key %s: %v'', [ArgString key, ArgError err])]"
  using assms by (simp add: logToDB_def Let_def)

text \<open>
  Claim C8. Whatever the audit store answers to the inserts, the worker ends the same way
  (it returns, or the process dies in the same job), with the same statistics, the same
  requests sent to the storage service and the same records handed to the sink: a failed
  insert changes neither the counters nor the outcome of a job. A failed insert adds one line
  to the log, and leaves the statistics as they are.
\<close>

theorem audit_failure_is_only_logged:
  "fst (worker src dst srcBucket dstBucket db jobs w) = fst (worker src dst srcBucket dstBucket db' jobs w)
   \<and> stats (snd (worker src dst srcBucket dstBucket db jobs w))
       = stats (snd (worker src dst srcBucket dstBucket db' jobs w))
   \<and> dbExecs (snd (worker src dst srcBucket dstBucket db jobs w))
       = dbExecs (snd (worker src dst srcBucket dstBucket db' jobs w))
   \<and> s3calls (snd (worker src dst srcBucket dstBucket db jobs w))
       = s3calls (snd (worker src dst srcBucket dstBucket db' jobs w))
   \<and> (\<forall>key st msg err v.
         Exec db \<lparr>file_key = key, status = st, message = msg\<rparr> = Some err \<longrightarrow>
           logs (logToDB db key st msg v)
             = logs v @ [(''DB insert failed for key %s: %v'', [ArgString key, ArgError err])]
           \<and> stats (logToDB db key st msg v) = stats v)"
proof -
  have "same_outcome w w" by (simp add: same_outcome_def)
  from worker_same [OF this, of src dst srcBucket dstBucket db jobs db']
  show ?thesis
    by (simp add: same_outcome_def logToDB_failure logToDB_frame)
qed

lemma abc_db_down_refuses: "Exec abc_db_down row = Some (LibError ''connection refused'')"
  by (simp add: abc_db_down_def)

theorem audit_failure_is_only_logged_witness:
  "Exec abc_db_down \<lparr>file_key = ''A'', status = ''success'', message = Str ''moved''\<rparr>
     = Some (LibError ''connection refused'')
   \<and> logs (logToDB abc_db_down ''A'' ''success'' (Str ''moved'') (initial_world 0))
       = logs (initial_world 0)
           @ [(''DB insert failed for key %s: %v'',
               [ArgString ''A'', ArgError (LibError ''connection refused'')])]
   \<and> stats (logToDB abc_db_down ''A'' ''success'' (Str ''moved'') (initial_world 0))
       = stats (initial_world 0)
   \<and> fst (worker abc_src abc_dst ''src'' ''dst'' abc_db_down abc_jobs (initial_world 0))
       = fst (worker abc_src abc_dst ''src'' ''dst'' abc_db abc_jobs (initial_world 0))
   \<and> stats (snd (worker abc_src abc_dst ''src'' ''dst'' abc_db_down abc_jobs (initial_world 0)))
       = stats abc_final"
proof -
  note T = audit_failure_is_only_logged [of abc_src abc_dst "''src''" "''dst''" abc_db_down abc_jobs
      "initial_world 0" abc_db]
  have refused: "Exec abc_db_down \<lparr>file_key = ''A'', status = ''success'', message = Str ''moved''\<rparr>
     = Some (LibError ''connection refused'')"
    by (rule abc_db_down_refuses)
  from T refused have "logs (logToDB abc_db_down ''A'' ''success'' (Str ''moved'') (initial_world 0))
       = logs (initial_world 0)
           @ [(''DB insert failed for key %s: %v'',
               [ArgString ''A'', ArgError (LibError ''connection refused'')])]
     \<and> stats (logToDB abc_db_down ''A'' ''success'' (Str ''moved'') (initial_world 0))
       = stats (initial_world 0)"
    by blast
  with T refused show ?thesis
    unfolding abc_final_def by blast
qed

section \<open>The lister and the start of the pool\<close>

text \<open>
  Claim C9. When the service serves the listing in pages, each but the last with a
  continuation token, \<open>listKeys\<close> requests every page and returns the keys of all of
  them, in order, as one list; \<open>main\<close> then runs the pool on the jobs made of the keys
  that \<open>listKeys\<close> returned, from the state in which the listing ended. When
  the request for a page fails, after any number of pages, \<open>listKeys\<close> ends the process
  with \<open>log.Fatalf\<close>, and the run ends there: requests other than listings, statistics
  and audit records are as they were before the listing, so no job has been run.
\<close>

theorem listKeys_all_pages_or_fatal:
  "(pages_served client bucket prefix None pages
      \<and> map ObjectKey (concat (map Contents pages)) = map Some keys
    \<longrightarrow> (\<exists>w'. listKeys client bucket prefix w = Some (Inr keys, w')
              \<and> length (s3calls w') = length (s3calls w) + length pages))
   \<and> (listKeys client (SRC_BUCKET env) (SRC_PREFIX env) w = Some (Inr keys, w1) \<and> keys \<noteq> []
    \<longrightarrow> (\<exists>w'. transfer env db client dst w
                = Some (fst (worker client dst (SRC_BUCKET env) (DST_BUCKET env) db
                               (map (\<lambda>key. \<lparr>Key = key\<rparr>) keys)
                               (update_stats (\<lambda>s. s\<lparr>TotalFiles := of_nat (length keys)\<rparr>) w1)),
                        w')))
   \<and> (pages_then_failure client (SRC_BUCKET env) (SRC_PREFIX env) None pages err
      \<and> map ObjectKey (concat (map Contents pages)) = map Some keys
    \<longrightarrow> (\<exists>w'. listKeys client (SRC_BUCKET env) (SRC_PREFIX env) w
                = Some (Inl (Fatalf ''Unable to list objects: %v'' [ArgError err]), w')
              \<and> transfer env db client dst w
                  = Some (Some (Fatalf ''Unable to list objects: %v'' [ArgError err]), w')
              \<and> filter (\<lambda>c. \<not> is_listing c) (s3calls w') = filter (\<lambda>c. \<not> is_listing c) (s3calls w)
              \<and> stats w' = stats w \<and> dbExecs w' = dbExecs w \<and> writes w' = writes w))"
proof (intro conjI impI)
  assume a: "pages_served client bucket prefix None pages
      \<and> map ObjectKey (concat (map Contents pages)) = map Some keys"
  have "\<exists>w'. listKeys_loop client bucket prefix [] None w = Some (Inr ([] @ keys), w')
            \<and> length (s3calls w') = length (s3calls w) + length pages"
    by (rule listKeys_loop_pages [OF a [THEN conjunct1] a [THEN conjunct2]])
  then show "\<exists>w'. listKeys client bucket prefix w = Some (Inr keys, w')
              \<and> length (s3calls w') = length (s3calls w) + length pages"
    by (simp add: listKeys_def)
next
  assume "listKeys client (SRC_BUCKET env) (SRC_PREFIX env) w = Some (Inr keys, w1) \<and> keys \<noteq> []"
  then show "\<exists>w'. transfer env db client dst w
                = Some (fst (worker client dst (SRC_BUCKET env) (DST_BUCKET env) db
                               (map (\<lambda>key. \<lparr>Key = key\<rparr>) keys)
                               (update_stats (\<lambda>s. s\<lparr>TotalFiles := of_nat (length keys)\<rparr>) w1)),
                        w')"
    by (auto simp: transfer_def Let_def split: prod.splits option.splits)
next
  let ?fatal = "Fatalf ''Unable to list objects: %v'' [ArgError err]"
  assume a: "pages_then_failure client (SRC_BUCKET env) (SRC_PREFIX env) None pages err
      \<and> map ObjectKey (concat (map Contents pages)) = map Some keys"
  have "\<exists>w'. listKeys_loop client (SRC_BUCKET env) (SRC_PREFIX env) [] None w
               = Some (Inl ?fatal, w')"
    by (rule listKeys_loop_failure [OF a [THEN conjunct1] a [THEN conjunct2]])
  then obtain w' where
    l: "listKeys_loop client (SRC_BUCKET env) (SRC_PREFIX env) [] None w = Some (Inl ?fatal, w')"
    by blast
  from listKeys_loop_calls [OF l] listKeys_loop_frame [OF l]
  have same: "filter (\<lambda>c. \<not> is_listing c) (s3calls w') = filter (\<lambda>c. \<not> is_listing c) (s3calls w)
      \<and> stats w' = stats w \<and> dbExecs w' = dbExecs w \<and> writes w' = writes w"
    by simp
  from l have lk: "listKeys client (SRC_BUCKET env) (SRC_PREFIX env) w = Some (Inl ?fatal, w')"
    by (simp add: listKeys_def)
  then have "transfer env db client dst w = Some (Some ?fatal, w')"
    by (simp add: transfer_def)
  with lk same show "\<exists>w'. listKeys client (SRC_BUCKET env) (SRC_PREFIX env) w = Some (Inl ?fatal, w')
              \<and> transfer env db client dst w = Some (Some ?fatal, w')
              \<and> filter (\<lambda>c. \<not> is_listing c) (s3calls w') = filter (\<lambda>c. \<not> is_listing c) (s3calls w)
              \<and> stats w' = stats w \<and> dbExecs w' = dbExecs w \<and> writes w' = writes w"
    by blast
qed

lemma abc_pages: "pages_served abc_src ''src'' [] None [abc_page1, abc_page2]"
  by (simp add: page_request_def last_page_def abc_src_def abc_page1_def abc_page2_def)

lemma abc_keys:
  "map ObjectKey (concat (map Contents [abc_page1, abc_page2])) = map Some [''A'', ''B'', ''C'']"
  by (simp add: abc_page1_def abc_page2_def)

lemma abc_page_lost:
  "pages_then_failure
     (abc_src\<lparr>ListObjectsV2 := \<lambda>i. if i = ListObjectsV2Input ''src'' None None None
                                    then Inr abc_page1 else Inl (LibError ''SlowDown'')\<rparr>)
     (SRC_BUCKET abc_env) (SRC_PREFIX abc_env) None [abc_page1] (LibError ''SlowDown'')"
  by (simp add: page_request_def last_page_def abc_env_def abc_page1_def)

lemma abc_keys1: "map ObjectKey (concat (map Contents [abc_page1])) = map Some [''A'', ''B'']"
  by (simp add: abc_page1_def)

theorem listKeys_all_pages_or_fatal_witness:
  "(pages_served abc_src ''src'' [] None [abc_page1, abc_page2]
      \<and> map ObjectKey (concat (map Contents [abc_page1, abc_page2])) = map Some [''A'', ''B'', ''C''])
   \<and> (\<exists>w1. listKeys abc_src (SRC_BUCKET abc_env) (SRC_PREFIX abc_env) (initial_world 0)
              = Some (Inr [''A'', ''B'', ''C''], w1)
          \<and> [''A'', ''B'', ''C''] \<noteq> []
          \<and> (\<exists>w'. transfer abc_env abc_db abc_src abc_dst (initial_world 0)
                = Some (fst (worker abc_src abc_dst (SRC_BUCKET abc_env) (DST_BUCKET abc_env) abc_db
                               (map (\<lambda>key. \<lparr>Key = key\<rparr>) [''A'', ''B'', ''C''])
                               (update_stats
                                  (\<lambda>s. s\<lparr>TotalFiles := of_nat (length [''A'', ''B'', ''C''])\<rparr>) w1)),
                        w')))
   \<and> (pages_then_failure
         (abc_src\<lparr>ListObjectsV2 := \<lambda>i. if i = ListObjectsV2Input ''src'' None None None
                                        then Inr abc_page1 else Inl (LibError ''SlowDown'')\<rparr>)
         (SRC_BUCKET abc_env) (SRC_PREFIX abc_env) None [abc_page1] (LibError ''SlowDown'')
       \<and> map ObjectKey (concat (map Contents [abc_page1])) = map Some [''A'', ''B''])
   \<and> (\<exists>w'. transfer abc_env abc_db
              (abc_src\<lparr>ListObjectsV2 := \<lambda>i. if i = ListObjectsV2Input ''src'' None None None
                                             then Inr abc_page1 else Inl (LibError ''SlowDown'')\<rparr>)
              abc_dst (initial_world 0)
            = Some (Some (Fatalf ''Unable to list objects: %v'' [ArgError (LibError ''SlowDown'')]), w')
          \<and> dbExecs w' = dbExecs (initial_world 0))"
proof -
  let ?bad = "abc_src\<lparr>ListObjectsV2 := \<lambda>i. if i = ListObjectsV2Input ''src'' None None None
                                        then Inr abc_page1 else Inl (LibError ''SlowDown'')\<rparr>"
  have ok: "pages_served abc_src ''src'' [] None [abc_page1, abc_page2]
      \<and> map ObjectKey (concat (map Contents [abc_page1, abc_page2])) = map Some [''A'', ''B'', ''C'']"
    using abc_pages abc_keys by (rule conjI)
  have lost: "pages_then_failure ?bad (SRC_BUCKET abc_env) (SRC_PREFIX abc_env) None [abc_page1]
         (LibError ''SlowDown'')
       \<and> map ObjectKey (concat (map Contents [abc_page1])) = map Some [''A'', ''B'']"
    using abc_page_lost abc_keys1 by (rule conjI)
  note T1 = listKeys_all_pages_or_fatal [where client = abc_src and bucket = "''src''"
      and prefix = "[]" and pages = "[abc_page1, abc_page2]" and keys = "[''A'', ''B'', ''C'']"
      and w = "initial_world 0", THEN conjunct1, rule_format, OF ok]
  note T2 = listKeys_all_pages_or_fatal [where client = ?bad and env = abc_env
      and pages = "[abc_page1]" and keys = "[''A'', ''B'']" and err = "LibError ''SlowDown''"
      and w = "initial_world 0" and db = abc_db and dst = abc_dst,
      THEN conjunct2, THEN conjunct2, rule_format, OF lost]
  have env: "SRC_BUCKET abc_env = ''src''" "SRC_PREFIX abc_env = []"
    by (simp_all add: abc_env_def)
  from T1 obtain w1 where
    l: "listKeys abc_src (SRC_BUCKET abc_env) (SRC_PREFIX abc_env) (initial_world 0)
          = Some (Inr [''A'', ''B'', ''C''], w1)"
    unfolding env by blast
  then have l': "listKeys abc_src (SRC_BUCKET abc_env) (SRC_PREFIX abc_env) (initial_world 0)
          = Some (Inr [''A'', ''B'', ''C''], w1) \<and> [''A'', ''B'', ''C''] \<noteq> []"
    by simp
  note T3 = listKeys_all_pages_or_fatal [where client = abc_src and env = abc_env
      and keys = "[''A'', ''B'', ''C'']" and w = "initial_world 0" and ?w1.0 = w1 and db = abc_db
      and dst = abc_dst, THEN conjunct2, THEN conjunct1, rule_format, OF l']
  from ok l' T3 lost T2 show ?thesis by blast
qed

section \<open>The report\<close>

lemma float64_of_int64_eq_0: "float64_of_int64 c = 0 \<longleftrightarrow> c = 0"
  by (simp add: float64_of_int64_def signed_eq_0_iff)

lemma float64_of_int64_pos:
  assumes "0 <s c"
  shows "float64_of_int64 c \<noteq> 0"
proof -
  from assms have "c \<noteq> 0" by (auto simp: word_sless_alt)
  then show ?thesis by (simp add: float64_of_int64_eq_0)
qed

lemma summary_finite:
  assumes "Method st \<noteq> [] \<longrightarrow> SuccessCount st \<noteq> 0"
  shows "no_division_by_zero (summary st a b n)"
proof -
  have lines: "list_all (\<lambda>(method, count, percentage). is_Finite percentage)
      (map (\<lambda>(method, count).
              (method, count,
               f64_mul (f64_div (Finite (float64_of_int64 count))
                          (float64_of_int64 (SuccessCount st))) 100))
           (Method st))"
  proof (cases "Method st = []")
    case True
    then show ?thesis by simp
  next
    case False
    with assms have "float64_of_int64 (SuccessCount st) \<noteq> 0"
      by (simp add: float64_of_int64_eq_0)
    then show ?thesis
      by (simp add: list_all_iff split_beta)
  qed
  show ?thesis
    unfolding no_division_by_zero_def summary_def Let_def
    using lines by (simp add: float64_of_int64_pos)
qed

lemma summary_fields:
  "rTotalFiles (summary st a b n) = TotalFiles st \<and> rSuccessCount (summary st a b n) = SuccessCount st
   \<and> rErrorCount (summary st a b n) = ErrorCount st \<and> workerThreads (summary st a b n) = n"
  by (simp add: summary_def Let_def)

lemma writeSummaryLog_frame:
  "writes (writeSummaryLog r st a b n w) = writes w @ [summary st a b n]
   \<and> files (writeSummaryLog r st a b n w) = (if r = None then files w @ [summary st a b n] else files w)
   \<and> stats (writeSummaryLog r st a b n w) = stats w
   \<and> dbExecs (writeSummaryLog r st a b n w) = dbExecs w
   \<and> s3calls (writeSummaryLog r st a b n w) = s3calls w"
  by (simp add: writeSummaryLog_def Let_def split: option.splits)

section \<open>The shape of a run of main\<close>

lemma listKeys_frame:
  assumes "listKeys c b p w = Some (r, w')"
  shows "stats w' = stats w \<and> dbExecs w' = dbExecs w \<and> writes w' = writes w \<and> files w' = files w"
  using listKeys_loop_frame [of c b p "[]" None w "(r, w')"] assms
  by (simp add: listKeys_def)

text \<open>
  The state of the pool at its start, and the state handed to the report writer.
\<close>

lemma transfer_run:
  assumes "listKeys src (SRC_BUCKET env) (SRC_PREFIX env) w = Some (Inr keys, w1)"
    and "worker src dst (SRC_BUCKET env) (DST_BUCKET env) db (map (\<lambda>key. \<lparr>Key = key\<rparr>) keys)
           (update_stats (\<lambda>s. s\<lparr>TotalFiles := of_nat (length keys)\<rparr>) w1) = (a, w2)"
  shows "transfer env db src dst w =
     (case a of
        Some x \<Rightarrow> Some (Some x, w2)
      | None \<Rightarrow>
         Some (None,
           writeSummaryLog (os_WriteFile env)
             (stats (update_stats (\<lambda>s. s\<lparr>EndTime := now_end env\<rparr>) w2))
             (SRC_BUCKET env) (DST_BUCKET env)
             (if keys = [] then 0 else workerCount (length keys))
             (update_stats (\<lambda>s. s\<lparr>EndTime := now_end env\<rparr>) w2)))"
proof (cases "keys = []")
  case True
  with assms(2) have "a = None"
    and "w2 = update_stats (\<lambda>s. s\<lparr>TotalFiles := of_nat (length keys)\<rparr>) w1"
    by simp_all
  with assms(1) True show ?thesis
    by (simp add: transfer_def Let_def)
next
  case False
  with assms show ?thesis
    by (simp add: transfer_def Let_def split: option.splits)
qed

lemma main_completed:
  assumes "main env = Some (None, w)"
  shows "\<exists>db src dst w0 keys w1 w2.
      startup env (initial_world (now_start env)) = (Inr (db, src, dst), w0)
    \<and> listKeys src (SRC_BUCKET env) (SRC_PREFIX env) w0 = Some (Inr keys, w1)
    \<and> worker src dst (SRC_BUCKET env) (DST_BUCKET env) db (map (\<lambda>key. \<lparr>Key = key\<rparr>) keys)
           (update_stats (\<lambda>s. s\<lparr>TotalFiles := of_nat (length keys)\<rparr>) w1) = (None, w2)
    \<and> w = writeSummaryLog (os_WriteFile env)
             (stats (update_stats (\<lambda>s. s\<lparr>EndTime := now_end env\<rparr>) w2))
             (SRC_BUCKET env) (DST_BUCKET env)
             (if keys = [] then 0 else workerCount (length keys))
             (update_stats (\<lambda>s. s\<lparr>EndTime := now_end env\<rparr>) w2)"
proof -
  obtain r w0 where st: "startup env (initial_world (now_start env)) = (r, w0)"
    by (cases "startup env (initial_world (now_start env))")
  with assms obtain db src dst where r: "r = Inr (db, src, dst)"
    and tr: "transfer env db src dst w0 = Some (None, w)"
    by (cases r) (auto simp: main_def)
  obtain lr where lk: "listKeys src (SRC_BUCKET env) (SRC_PREFIX env) w0 = Some lr"
    using tr by (cases "listKeys src (SRC_BUCKET env) (SRC_PREFIX env) w0")
      (simp_all add: transfer_def)
  obtain kr w1 where lr: "lr = (kr, w1)" by (cases lr)
  with tr lk obtain keys where kr: "kr = Inr keys"
    by (cases kr) (simp_all add: transfer_def)
  obtain a w2 where wk: "worker src dst (SRC_BUCKET env) (DST_BUCKET env) db
      (map (\<lambda>key. \<lparr>Key = key\<rparr>) keys)
      (update_stats (\<lambda>s. s\<lparr>TotalFiles := of_nat (length keys)\<rparr>) w1) = (a, w2)"
    by (cases "worker src dst (SRC_BUCKET env) (DST_BUCKET env) db
      (map (\<lambda>key. \<lparr>Key = key\<rparr>) keys)
      (update_stats (\<lambda>s. s\<lparr>TotalFiles := of_nat (length keys)\<rparr>) w1)")
  from transfer_run [OF lk [unfolded lr kr] wk] tr
  have "a = None" and "w = writeSummaryLog (os_WriteFile env)
             (stats (update_stats (\<lambda>s. s\<lparr>EndTime := now_end env\<rparr>) w2))
             (SRC_BUCKET env) (DST_BUCKET env)
             (if keys = [] then 0 else workerCount (length keys))
             (update_stats (\<lambda>s. s\<lparr>EndTime := now_end env\<rparr>) w2)"
    by (cases a; simp)+
  with st r lk lr kr wk show ?thesis by blast
qed

lemma main_run:
  assumes st: "startup env (initial_world (now_start env)) = (Inr (db, src, dst), w0)"
    and lk: "listKeys src (SRC_BUCKET env) (SRC_PREFIX env) w0 = Some (Inr keys, w1)"
    and wk: "worker src dst (SRC_BUCKET env) (DST_BUCKET env) db (map (\<lambda>key. \<lparr>Key = key\<rparr>) keys)
           (update_stats (\<lambda>s. s\<lparr>TotalFiles := of_nat (length keys)\<rparr>) w1) = (None, w2)"
  shows "main env = Some (None,
           writeSummaryLog (os_WriteFile env)
             (stats (update_stats (\<lambda>s. s\<lparr>EndTime := now_end env\<rparr>) w2))
             (SRC_BUCKET env) (DST_BUCKET env)
             (if keys = [] then 0 else workerCount (length keys))
             (update_stats (\<lambda>s. s\<lparr>EndTime := now_end env\<rparr>) w2))"
  using transfer_run [OF lk wk] st by (simp add: main_def)

text \<open>The state in which \<open>main\<close> starts the pool.\<close>

lemma pool_start:
  assumes st: "startup env (initial_world t) = (r, w0)"
    and lk: "listKeys src b p w0 = Some (Inr keys, w1)"
  shows "SuccessCount (stats (update_stats (\<lambda>s. s\<lparr>TotalFiles := n\<rparr>) w1)) = 0
       \<and> ErrorCount (stats (update_stats (\<lambda>s. s\<lparr>TotalFiles := n\<rparr>) w1)) = 0
       \<and> Method (stats (update_stats (\<lambda>s. s\<lparr>TotalFiles := n\<rparr>) w1)) = []
       \<and> TotalFiles (stats (update_stats (\<lambda>s. s\<lparr>TotalFiles := n\<rparr>) w1)) = n
       \<and> dbExecs (update_stats (\<lambda>s. s\<lparr>TotalFiles := n\<rparr>) w1) = []
       \<and> writes (update_stats (\<lambda>s. s\<lparr>TotalFiles := n\<rparr>) w1) = []
       \<and> files (update_stats (\<lambda>s. s\<lparr>TotalFiles := n\<rparr>) w1) = []"
  using startup_frame [OF st] listKeys_frame [OF lk]
  by (simp add: update_stats_def initial_world_def)

text \<open>The report of a run whose pool has returned.\<close>

lemma report_of_run:
  assumes start: "SuccessCount (stats v) = 0 \<and> ErrorCount (stats v) = 0 \<and> Method (stats v) = []
       \<and> TotalFiles (stats v) = of_nat (length jobs) \<and> dbExecs v = [] \<and> writes v = [] \<and> files v = []"
    and wk: "worker src dst sb db dbh jobs v = (None, w2)"
    and w: "w = writeSummaryLog wr (stats (update_stats (\<lambda>s. s\<lparr>EndTime := t\<rparr>) w2)) a b n
                 (update_stats (\<lambda>s. s\<lparr>EndTime := t\<rparr>) w2)"
  shows "writes w = [summary (stats w) a b n]
       \<and> (wr = None \<longrightarrow> files w = [summary (stats w) a b n])
       \<and> TotalFiles (stats w) = of_nat (length jobs)
       \<and> SuccessCount (stats w) = of_nat (successes (dbExecs w))
       \<and> ErrorCount (stats w) = of_nat (failures (dbExecs w))
       \<and> successes (dbExecs w) + failures (dbExecs w) = length jobs
       \<and> length (dbExecs w) = length jobs
       \<and> (length jobs < 2 ^ 63 \<longrightarrow> no_division_by_zero (summary (stats w) a b n))"
proof -
  from start have z: "SuccessCount (stats v) = 0" "ErrorCount (stats v) = 0" "dbExecs v = []"
    and m: "Method (stats v) = []" by simp_all
  note r = worker_run [OF wk] and t = worker_totals [OF wk z]
  have sw: "stats w = (stats w2)\<lparr>EndTime := t\<rparr>" and dw: "dbExecs w = dbExecs w2"
    and ww: "writes w = writes w2 @ [summary (stats w) a b n]"
    and fw: "wr = None \<longrightarrow> files w = files w2 @ [summary (stats w) a b n]"
    unfolding w by (simp_all add: writeSummaryLog_frame update_stats_def)
  from r start have keep: "writes w2 = []" "files w2 = []"
    "TotalFiles (stats w2) = of_nat (length jobs)"
    by auto
  from t have "length (map file_key (dbExecs w2)) = length (map Key jobs)" by simp
  then have len: "length (dbExecs w2) = length jobs" by simp
  have fin: "no_division_by_zero (summary (stats w) a b n)" if "length jobs < 2 ^ 63"
  proof -
    from worker_method_totals [OF wk z(1) m that]
    have "Method (stats w) \<noteq> [] \<longrightarrow> SuccessCount (stats w) \<noteq> 0"
      by (simp add: sw)
    then show ?thesis by (rule summary_finite)
  qed
  from t sw dw ww fw keep len fin show ?thesis by simp
qed

text \<open>
  The division of the per-method line has no test of its own in \<open>writeSummaryLog\<close>: on
  statistics that no run produces, with a method counted and no success, it divides by zero.
\<close>

lemma summary_method_division_untested:
  "\<not> no_division_by_zero
       (summary \<lparr>StartTime = 0, EndTime = 1, TotalFiles = 1, SuccessCount = 0, ErrorCount = 1,
                 TotalSizeBytes = 0, Method = [(''server-side'', 1)]\<rparr> a b n)"
  by (simp add: no_division_by_zero_def summary_def Let_def float64_of_int64_def)

text \<open>
  Claim C6. In the report, files per second and MB per second are computed only when the
  elapsed time is over zero, and the success rate only when the number of files is over
  zero: on any statistics these three are numbers. The per-method percentage divides by the
  success count; on the statistics with which a completed run of \<open>main\<close> calls the
  report writer, the method map is empty when the success count is zero, so no value of the
  one report written comes from a division by zero.
\<close>

theorem report_divides_by_no_zero:
  "(\<forall>st a b n. is_Finite (filesPerSecond (summary st a b n))
        \<and> is_Finite (mbPerSecond (summary st a b n))
        \<and> is_Finite (successRate (summary st a b n)))
   \<and> (main env = Some (None, w) \<and> length (dbExecs w) < 2 ^ 63
      \<longrightarrow> (\<exists>r. writes w = [r] \<and> no_division_by_zero r))"
proof (intro conjI allI impI)
  fix st a b n
  show "is_Finite (filesPerSecond (summary st a b n))"
    by (simp add: summary_def Let_def)
  show "is_Finite (mbPerSecond (summary st a b n))"
    by (simp add: summary_def Let_def)
  show "is_Finite (successRate (summary st a b n))"
    by (simp add: summary_def Let_def float64_of_int64_pos)
next
  assume a: "main env = Some (None, w) \<and> length (dbExecs w) < 2 ^ 63"
  from main_completed [OF a [THEN conjunct1]] obtain db src dst w0 keys w1 w2 where
    st: "startup env (initial_world (now_start env)) = (Inr (db, src, dst), w0)"
    and lk: "listKeys src (SRC_BUCKET env) (SRC_PREFIX env) w0 = Some (Inr keys, w1)"
    and wk: "worker src dst (SRC_BUCKET env) (DST_BUCKET env) db (map (\<lambda>key. \<lparr>Key = key\<rparr>) keys)
           (update_stats (\<lambda>s. s\<lparr>TotalFiles := of_nat (length keys)\<rparr>) w1) = (None, w2)"
    and w: "w = writeSummaryLog (os_WriteFile env)
             (stats (update_stats (\<lambda>s. s\<lparr>EndTime := now_end env\<rparr>) w2))
             (SRC_BUCKET env) (DST_BUCKET env)
             (if keys = [] then 0 else workerCount (length keys))
             (update_stats (\<lambda>s. s\<lparr>EndTime := now_end env\<rparr>) w2)"
    by blast
  from pool_start [OF st lk, of "of_nat (length keys)"]
  have start: "SuccessCount (stats (update_stats (\<lambda>s. s\<lparr>TotalFiles := of_nat (length keys)\<rparr>) w1)) = 0
       \<and> ErrorCount (stats (update_stats (\<lambda>s. s\<lparr>TotalFiles := of_nat (length keys)\<rparr>) w1)) = 0
       \<and> Method (stats (update_stats (\<lambda>s. s\<lparr>TotalFiles := of_nat (length keys)\<rparr>) w1)) = []
       \<and> TotalFiles (stats (update_stats (\<lambda>s. s\<lparr>TotalFiles := of_nat (length keys)\<rparr>) w1))
           = of_nat (length (map (\<lambda>key. \<lparr>Key = key\<rparr>) keys))
       \<and> dbExecs (update_stats (\<lambda>s. s\<lparr>TotalFiles := of_nat (length keys)\<rparr>) w1) = []
       \<and> writes (update_stats (\<lambda>s. s\<lparr>TotalFiles := of_nat (length keys)\<rparr>) w1) = []
       \<and> files (update_stats (\<lambda>s. s\<lparr>TotalFiles := of_nat (length keys)\<rparr>) w1) = []"
    by simp
  note rep = report_of_run [OF start wk w]
  from rep a have "length (map (\<lambda>key. \<lparr>Key = key\<rparr>) keys) < 2 ^ 63" by simp
  with rep show "\<exists>r. writes w = [r] \<and> no_division_by_zero r" by blast
qed

section \<open>The run on three objects\<close>

lemma abc_env_fields:
  "SRC_BUCKET abc_env = ''src'' \<and> DST_BUCKET abc_env = ''dst'' \<and> SRC_PREFIX abc_env = []
   \<and> now_start abc_env = 0 \<and> now_end abc_env = 5000000000 \<and> os_WriteFile abc_env = None"
  by (simp add: abc_env_def)

lemma abc_env_listing_fields:
  "SRC_BUCKET (abc_env_listing page) = ''src'' \<and> DST_BUCKET (abc_env_listing page) = ''dst''
   \<and> SRC_PREFIX (abc_env_listing page) = [] \<and> now_start (abc_env_listing page) = 0
   \<and> now_end (abc_env_listing page) = 5000000000 \<and> os_WriteFile (abc_env_listing page) = None"
  by (simp add: abc_env_listing_def abc_env_def)

lemma abc_startup:
  "startup abc_env v = (Inr (abc_db, abc_src, abc_dst), snd (startup abc_env v))"
  by (simp add: startup_def abc_env_def testDBConnection_def abc_db_def testS3Connection_def
      abc_src_def abc_dst_def Let_def)

lemma abc_listing_startup:
  "startup (abc_env_listing page) v
     = (Inr (abc_db, abc_src\<lparr>ListObjectsV2 := \<lambda>i. Inr page\<rparr>, abc_dst),
        snd (startup (abc_env_listing page) v))"
  by (simp add: startup_def abc_env_listing_def abc_env_def testDBConnection_def abc_db_def
      testS3Connection_def abc_dst_def Let_def)

lemma abc_listKeys:
  "\<exists>w1. listKeys abc_src ''src'' [] v = Some (Inr [''A'', ''B'', ''C''], w1)"
  using listKeys_loop_pages [OF abc_pages abc_keys, of "[]" v]
  by (auto simp: listKeys_def)

lemma abc_main:
  "\<exists>w. main abc_env = Some (None, w) \<and> length (dbExecs w) = 3
        \<and> writes w = [summary (stats w) ''src'' ''dst'' 25]"
proof -
  let ?w0 = "snd (startup abc_env (initial_world (now_start abc_env)))"
  have st: "startup abc_env (initial_world (now_start abc_env))
              = (Inr (abc_db, abc_src, abc_dst), ?w0)"
    by (rule abc_startup)
  from abc_listKeys [of ?w0] obtain w1 where
    lk: "listKeys abc_src (SRC_BUCKET abc_env) (SRC_PREFIX abc_env) ?w0
           = Some (Inr [''A'', ''B'', ''C''], w1)"
    by (auto simp: abc_env_fields)
  let ?v = "update_stats (\<lambda>s. s\<lparr>TotalFiles := of_nat (length [''A'', ''B'', ''C''])\<rparr>) w1"
  let ?jobs = "map (\<lambda>key. \<lparr>Key = key\<rparr>) [''A'', ''B'', ''C'']"
  obtain w2 where wk: "worker abc_src abc_dst (SRC_BUCKET abc_env) (DST_BUCKET abc_env) abc_db
      ?jobs ?v = (None, w2)"
    using worker_returns [OF abc_src_lengths, of abc_dst "SRC_BUCKET abc_env" "DST_BUCKET abc_env"
        abc_db ?jobs ?v]
    by (cases "worker abc_src abc_dst (SRC_BUCKET abc_env) (DST_BUCKET abc_env) abc_db ?jobs ?v")
      simp
  note m = main_run [OF st lk wk]
  from pool_start [OF st lk, of "of_nat (length [''A'', ''B'', ''C''])"]
  have start: "SuccessCount (stats ?v) = 0 \<and> ErrorCount (stats ?v) = 0 \<and> Method (stats ?v) = []
       \<and> TotalFiles (stats ?v) = of_nat (length ?jobs) \<and> dbExecs ?v = [] \<and> writes ?v = []
       \<and> files ?v = []"
    by simp
  from report_of_run [OF start wk refl] m show ?thesis
    by (simp add: abc_env_fields workerCount_def)
qed

theorem report_divides_by_no_zero_witness:
  "\<exists>w. (main abc_env = Some (None, w) \<and> length (dbExecs w) < 2 ^ 63)
       \<and> (\<exists>r. writes w = [r] \<and> no_division_by_zero r)"
proof -
  from abc_main obtain w where
    w: "main abc_env = Some (None, w) \<and> length (dbExecs w) < 2 ^ 63"
    by auto
  from report_divides_by_no_zero [of abc_env w, THEN conjunct2, rule_format, OF w] w
  show ?thesis by blast
qed

section \<open>The report at the end of a run\<close>

lemma worker_all_fail:
  assumes "\<forall>job \<in> set jobs. \<forall>v. \<exists>e. fst (moveObject src dst sb db (Key job) v) = Inr (Some e)"
  shows "fst (worker src dst sb db dbh jobs w) = None
       \<and> SuccessCount (stats (snd (worker src dst sb db dbh jobs w))) = SuccessCount (stats w)
       \<and> ErrorCount (stats (snd (worker src dst sb db dbh jobs w)))
           = ErrorCount (stats w) + of_nat (length jobs)"
  using assms
proof (induction jobs arbitrary: w)
  case Nil
  show ?case by simp
next
  case (Cons job jobs)
  from Cons.prems have "\<forall>v. \<exists>e. fst (moveObject src dst sb db (Key job) v) = Inr (Some e)"
    by simp
  then obtain e where "fst (moveObject src dst sb db (Key job) w) = Inr (Some e)"
    by blast
  then obtain w1 where mo: "moveObject src dst sb db (Key job) w = (Inr (Some e), w1)"
    by (cases "moveObject src dst sb db (Key job) w") simp
  from Cons.prems have "\<forall>job \<in> set jobs. \<forall>v. \<exists>e. fst (moveObject src dst sb db (Key job) v) = Inr (Some e)"
    by simp
  from Cons.IH [OF this, of "record_outcome dbh job (Some e) w1"] mo moveObject_frame [OF mo]
  show ?case
    by (simp add: record_outcome_Some)
qed

text \<open>
  A run that has passed the startup checks and whose listing has returned the keys. With no
  key listed, \<open>main\<close> returns after one report has been handed to \<open>os.WriteFile\<close> (and
  written, when that call succeeds): no job is run, no request is sent after the listing,
  and the report shows 0 files, 0 successes and 0 errors. When every job fails, the report
  is still written, with as many errors as there are keys and no success. And the report is
  written whenever every metadata answer of the service carries the length of the object.
\<close>

lemma run_reports:
  assumes st: "startup env (initial_world (now_start env)) = (Inr (db, srcS3, dstS3), w0)"
    and lk: "listKeys srcS3 (SRC_BUCKET env) (SRC_PREFIX env) w0 = Some (Inr keys, w1)"
  shows "(keys = [] \<longrightarrow>
           (\<exists>w r. main env = Some (None, w) \<and> writes w = [r]
              \<and> (os_WriteFile env = None \<longrightarrow> files w = [r])
              \<and> rTotalFiles r = 0 \<and> rSuccessCount r = 0 \<and> rErrorCount r = 0
              \<and> dbExecs w = [] \<and> s3calls w = s3calls w1))
       \<and> ((\<forall>key \<in> set keys. \<forall>v. \<exists>e.
              fst (moveObject srcS3 dstS3 (SRC_BUCKET env) (DST_BUCKET env) key v) = Inr (Some e)) \<longrightarrow>
           (\<exists>w r. main env = Some (None, w) \<and> writes w = [r]
              \<and> (os_WriteFile env = None \<longrightarrow> files w = [r])
              \<and> rTotalFiles r = of_nat (length keys) \<and> rSuccessCount r = 0
              \<and> rErrorCount r = of_nat (length keys)
              \<and> length (dbExecs w) = length keys))
       \<and> ((\<forall>i h. HeadObject srcS3 i = Inr h \<longrightarrow> ContentLength h \<noteq> None) \<longrightarrow>
           (\<exists>w r. main env = Some (None, w) \<and> writes w = [r]
              \<and> (os_WriteFile env = None \<longrightarrow> files w = [r])
              \<and> rTotalFiles r = of_nat (length keys)))"
proof -
  let ?jobs = "map (\<lambda>key. \<lparr>Key = key\<rparr>) keys"
  let ?v = "update_stats (\<lambda>s. s\<lparr>TotalFiles := of_nat (length keys)\<rparr>) w1"
  let ?run = "worker srcS3 dstS3 (SRC_BUCKET env) (DST_BUCKET env) db ?jobs ?v"
  let ?n = "if keys = [] then 0 else workerCount (length keys)"
  let ?w = "writeSummaryLog (os_WriteFile env)
             (stats (update_stats (\<lambda>s. s\<lparr>EndTime := now_end env\<rparr>) (snd ?run)))
             (SRC_BUCKET env) (DST_BUCKET env) ?n
             (update_stats (\<lambda>s. s\<lparr>EndTime := now_end env\<rparr>) (snd ?run))"
  let ?r = "summary (stats ?w) (SRC_BUCKET env) (DST_BUCKET env) ?n"
  from pool_start [OF st lk, of "of_nat (length keys)"]
  have start: "SuccessCount (stats ?v) = 0 \<and> ErrorCount (stats ?v) = 0 \<and> Method (stats ?v) = []
       \<and> TotalFiles (stats ?v) = of_nat (length ?jobs) \<and> dbExecs ?v = [] \<and> writes ?v = []
       \<and> files ?v = []"
    by simp
  have report: "main env = Some (None, ?w) \<and> writes ?w = [?r]
      \<and> (os_WriteFile env = None \<longrightarrow> files ?w = [?r])
      \<and> rTotalFiles ?r = of_nat (length keys)
      \<and> rSuccessCount ?r = SuccessCount (stats (snd ?run))
      \<and> rErrorCount ?r = ErrorCount (stats (snd ?run))
      \<and> length (dbExecs ?w) = length keys"
    if "fst ?run = None"
  proof -
    from that have wk: "?run = (None, snd ?run)" by (cases ?run) simp
    note m = main_run [OF st lk wk] and rep = report_of_run [OF start wk refl]
    have "stats ?w = (stats (snd ?run))\<lparr>EndTime := now_end env\<rparr>"
      by (simp add: writeSummaryLog_frame update_stats_def)
    then have "SuccessCount (stats ?w) = SuccessCount (stats (snd ?run))"
      and "ErrorCount (stats ?w) = ErrorCount (stats (snd ?run))"
      by simp_all
    with m rep show ?thesis
      by (simp add: summary_fields)
  qed
  have none: "\<exists>w r. main env = Some (None, w) \<and> writes w = [r]
              \<and> (os_WriteFile env = None \<longrightarrow> files w = [r])
              \<and> rTotalFiles r = 0 \<and> rSuccessCount r = 0 \<and> rErrorCount r = 0
              \<and> dbExecs w = [] \<and> s3calls w = s3calls w1"
    if "keys = []"
  proof -
    from that have run: "?run = (None, ?v)" by simp
    then have "fst ?run = None" by simp
    note rep = report [OF this]
    from run start have "SuccessCount (stats (snd ?run)) = 0" "ErrorCount (stats (snd ?run)) = 0"
      by simp_all
    moreover from rep that have "dbExecs ?w = []" by simp
    moreover from run have "s3calls ?w = s3calls w1"
      by (simp add: writeSummaryLog_frame update_stats_def)
    ultimately show ?thesis
      using rep that by (intro exI [of _ ?w] exI [of _ ?r]) simp
  qed
  have fail: "\<exists>w r. main env = Some (None, w) \<and> writes w = [r]
              \<and> (os_WriteFile env = None \<longrightarrow> files w = [r])
              \<and> rTotalFiles r = of_nat (length keys) \<and> rSuccessCount r = 0
              \<and> rErrorCount r = of_nat (length keys)
              \<and> length (dbExecs w) = length keys"
    if a: "\<forall>key \<in> set keys. \<forall>v. \<exists>e.
              fst (moveObject srcS3 dstS3 (SRC_BUCKET env) (DST_BUCKET env) key v) = Inr (Some e)"
  proof -
    from a have "\<forall>job \<in> set ?jobs. \<forall>v. \<exists>e.
        fst (moveObject srcS3 dstS3 (SRC_BUCKET env) (DST_BUCKET env) (Key job) v) = Inr (Some e)"
      by simp
    from worker_all_fail [OF this, of db ?v] start
    have f: "fst ?run = None" and "SuccessCount (stats (snd ?run)) = 0"
      and "ErrorCount (stats (snd ?run)) = of_nat (length keys)"
      by simp_all
    with report [OF f] show ?thesis
      by (intro exI [of _ ?w] exI [of _ ?r]) simp
  qed
  have len: "\<exists>w r. main env = Some (None, w) \<and> writes w = [r]
              \<and> (os_WriteFile env = None \<longrightarrow> files w = [r])
              \<and> rTotalFiles r = of_nat (length keys)"
    if a: "\<forall>i h. HeadObject srcS3 i = Inr h \<longrightarrow> ContentLength h \<noteq> None"
  proof -
    from worker_returns [OF a] have "fst ?run = None" .
    from report [OF this] show ?thesis
      by (intro exI [of _ ?w] exI [of _ ?r]) simp
  qed
  from none fail len show ?thesis by blast
qed

lemma one_page_listKeys:
  assumes "last_page page" and "map ObjectKey (Contents page) = map Some keys"
  shows "\<exists>w1. listKeys (abc_src\<lparr>ListObjectsV2 := \<lambda>i. Inr page\<rparr>) b p v = Some (Inr keys, w1)"
proof -
  have "pages_served (abc_src\<lparr>ListObjectsV2 := \<lambda>i. Inr page\<rparr>) b p None [page]"
    using assms(1) by simp
  moreover have "map ObjectKey (concat (map Contents [page])) = map Some keys"
    using assms(2) by simp
  ultimately show ?thesis
    using listKeys_loop_pages [of "abc_src\<lparr>ListObjectsV2 := \<lambda>i. Inr page\<rparr>" b p None "[page]" keys "[]" v]
    by (auto simp: listKeys_def)
qed

lemma abc_B_always_fails:
  "\<forall>key \<in> set [''B'']. \<forall>v. \<exists>e.
     fst (moveObject (abc_src\<lparr>ListObjectsV2 := \<lambda>i. Inr abc_only_B\<rparr>) abc_dst
            (SRC_BUCKET (abc_env_listing abc_only_B)) (DST_BUCKET (abc_env_listing abc_only_B))
            key v) = Inr (Some e)"
  by (simp add: abc_env_listing_fields moveObject_def moveObjectFallback_def abc_src_def
      abc_head_def Let_def)

lemma run_reports_abc:
  "(\<exists>w0 w1. startup (abc_env_listing abc_no_object)
               (initial_world (now_start (abc_env_listing abc_no_object)))
             = (Inr (abc_db, abc_src\<lparr>ListObjectsV2 := \<lambda>i. Inr abc_no_object\<rparr>, abc_dst), w0)
           \<and> listKeys (abc_src\<lparr>ListObjectsV2 := \<lambda>i. Inr abc_no_object\<rparr>)
               (SRC_BUCKET (abc_env_listing abc_no_object))
               (SRC_PREFIX (abc_env_listing abc_no_object)) w0 = Some (Inr [], w1))
   \<and> (\<exists>w r. main (abc_env_listing abc_no_object) = Some (None, w) \<and> writes w = [r]
          \<and> files w = [r] \<and> rTotalFiles r = 0 \<and> rSuccessCount r = 0 \<and> rErrorCount r = 0
          \<and> dbExecs w = [])
   \<and> (\<forall>v. \<exists>e.
         fst (moveObject (abc_src\<lparr>ListObjectsV2 := \<lambda>i. Inr abc_only_B\<rparr>) abc_dst
                (SRC_BUCKET (abc_env_listing abc_only_B)) (DST_BUCKET (abc_env_listing abc_only_B))
                ''B'' v) = Inr (Some e))
   \<and> (\<exists>w r. main (abc_env_listing abc_only_B) = Some (None, w) \<and> writes w = [r]
          \<and> rTotalFiles r = 1 \<and> rSuccessCount r = 0 \<and> rErrorCount r = 1
          \<and> length (dbExecs w) = 1)
   \<and> (\<forall>i. case HeadObject abc_src i of Inl e \<Rightarrow> True | Inr h \<Rightarrow> ContentLength h \<noteq> None)
   \<and> (\<exists>w r. main abc_env = Some (None, w) \<and> writes w = [r] \<and> rTotalFiles r = 3)"
proof -
  let ?e0 = "abc_env_listing abc_no_object" and ?eB = "abc_env_listing abc_only_B"
  let ?s0 = "abc_src\<lparr>ListObjectsV2 := \<lambda>i. Inr abc_no_object\<rparr>"
  let ?sB = "abc_src\<lparr>ListObjectsV2 := \<lambda>i. Inr abc_only_B\<rparr>"
  let ?w0 = "snd (startup ?e0 (initial_world (now_start ?e0)))"
  let ?wB = "snd (startup ?eB (initial_world (now_start ?eB)))"
  let ?wA = "snd (startup abc_env (initial_world (now_start abc_env)))"
  have st0: "startup ?e0 (initial_world (now_start ?e0)) = (Inr (abc_db, ?s0, abc_dst), ?w0)"
    by (rule abc_listing_startup)
  have stB: "startup ?eB (initial_world (now_start ?eB)) = (Inr (abc_db, ?sB, abc_dst), ?wB)"
    by (rule abc_listing_startup)
  have stA: "startup abc_env (initial_world (now_start abc_env)) = (Inr (abc_db, abc_src, abc_dst), ?wA)"
    by (rule abc_startup)
  obtain w1 where lk0: "listKeys ?s0 (SRC_BUCKET ?e0) (SRC_PREFIX ?e0) ?w0 = Some (Inr [], w1)"
    using one_page_listKeys [of abc_no_object "[]" "SRC_BUCKET ?e0" "SRC_PREFIX ?e0" ?w0]
    by (auto simp: last_page_def abc_no_object_def)
  obtain w1B where lkB: "listKeys ?sB (SRC_BUCKET ?eB) (SRC_PREFIX ?eB) ?wB = Some (Inr [''B''], w1B)"
    using one_page_listKeys [of abc_only_B "[''B'']" "SRC_BUCKET ?eB" "SRC_PREFIX ?eB" ?wB]
    by (auto simp: last_page_def abc_only_B_def)
  obtain w1A where lkA: "listKeys abc_src (SRC_BUCKET abc_env) (SRC_PREFIX abc_env) ?wA
      = Some (Inr [''A'', ''B'', ''C''], w1A)"
    using abc_listKeys [of ?wA] by (auto simp: abc_env_fields)
  have w0: "os_WriteFile ?e0 = None" by (simp add: abc_env_listing_fields)
  from run_reports [OF st0 lk0, THEN conjunct1, THEN mp, OF refl] w0
  have r0: "\<exists>w r. main ?e0 = Some (None, w) \<and> writes w = [r]
          \<and> files w = [r] \<and> rTotalFiles r = 0 \<and> rSuccessCount r = 0 \<and> rErrorCount r = 0
          \<and> dbExecs w = []"
    by blast
  from run_reports [OF stB lkB, THEN conjunct2, THEN conjunct1, THEN mp,
      OF abc_B_always_fails]
  have rB: "\<exists>w r. main ?eB = Some (None, w) \<and> writes w = [r]
          \<and> rTotalFiles r = 1 \<and> rSuccessCount r = 0 \<and> rErrorCount r = 1
          \<and> length (dbExecs w) = 1"
    by auto
  from run_reports [OF stA lkA, THEN conjunct2, THEN conjunct2, THEN mp,
      OF abc_src_lengths]
  have rA: "\<exists>w r. main abc_env = Some (None, w) \<and> writes w = [r] \<and> rTotalFiles r = 3"
    by auto
  have hB: "\<forall>v. \<exists>e. fst (moveObject ?sB abc_dst (SRC_BUCKET ?eB) (DST_BUCKET ?eB) ''B'' v)
      = Inr (Some e)"
    using abc_B_always_fails by simp
  have hA: "\<forall>i. case HeadObject abc_src i of Inl e \<Rightarrow> True | Inr h \<Rightarrow> ContentLength h \<noteq> None"
    using abc_src_lengths by (auto split: sum.splits)
  from st0 lk0 r0 hB rB hA rA show ?thesis
    by blast
qed

subsection \<open>A metadata answer without a length ends the run before the report\<close>

lemma abc_no_length_fields:
  "SRC_BUCKET abc_env_no_length = ''src'' \<and> DST_BUCKET abc_env_no_length = ''dst''
   \<and> SRC_PREFIX abc_env_no_length = [] \<and> now_start abc_env_no_length = 0"
  by (simp add: abc_env_no_length_def abc_env_def)

lemma abc_no_length_startup:
  "startup abc_env_no_length v
     = (Inr (abc_db, abc_src_no_length, abc_dst), snd (startup abc_env_no_length v))"
  by (simp add: startup_def abc_env_no_length_def abc_src_no_length_def abc_env_def
      testDBConnection_def abc_db_def testS3Connection_def abc_src_def abc_dst_def Let_def)

lemma abc_no_length_listKeys:
  "\<exists>w1. listKeys abc_src_no_length ''src'' [] v = Some (Inr [''A'', ''B'', ''C''], w1)"
proof -
  have "pages_served abc_src_no_length ''src'' [] None [abc_page1, abc_page2]"
    by (simp add: page_request_def last_page_def abc_src_no_length_def abc_src_def
        abc_page1_def abc_page2_def)
  from listKeys_loop_pages [OF this abc_keys, of "[]" v] show ?thesis
    by (auto simp: listKeys_def)
qed

lemma abc_no_length_A:
  "moveObject abc_src_no_length abc_dst ''src'' ''dst'' ''A'' w
     = (Inr None, update_stats (\<lambda>s. s\<lparr>Method := increment ''server-side'' (Method s)\<rparr>)
          (issue (CallCopyObject (CopyObjectInput ''dst'' ''A'' ''src/A'' ''COPY'' ''STANDARD'')) w))"
  by (simp add: moveObject_def abc_src_no_length_def abc_src_def Let_def)

lemma abc_no_length_B:
  "moveObject abc_src_no_length abc_dst ''src'' ''dst'' ''B'' w
     = (Inl NilDereference,
        issue (CallHeadObject (HeadObjectInput ''src'' ''B''))
          (issue (CallCopyObject (CopyObjectInput ''dst'' ''B'' ''src/B'' ''COPY'' ''STANDARD'')) w))"
  by (simp add: moveObject_def moveObjectFallback_def abc_src_no_length_def abc_src_def Let_def)

text \<open>
  Claim C7, on the three objects behind a source whose metadata answers carry no length.
  The run passes the startup checks and lists the three keys. \<open>A\<close> is copied and recorded;
  the direct copy of \<open>B\<close> fails, and \<open>moveObjectFallback\<close> reads \<open>*headObj.ContentLength\<close>
  (line 247) from an answer whose \<open>ContentLength\<close> is nil. The panic of the worker ends the
  process: \<open>main\<close> never reaches \<open>writeSummaryLog\<close>, and no report is handed to
  \<open>os.WriteFile\<close>, against the claim that every run that passes the startup produces one.
  The two cases that the claim names, the empty listing and the run whose jobs all fail, are
  those of \<open>run_reports\<close>.
\<close>

theorem abc_no_length_ends_without_report:
  "(\<exists>w0 w1. startup abc_env_no_length (initial_world (now_start abc_env_no_length))
               = (Inr (abc_db, abc_src_no_length, abc_dst), w0)
           \<and> listKeys abc_src_no_length (SRC_BUCKET abc_env_no_length)
               (SRC_PREFIX abc_env_no_length) w0 = Some (Inr [''A'', ''B'', ''C''], w1))
   \<and> (\<exists>w. main abc_env_no_length = Some (Some NilDereference, w)
          \<and> writes w = [] \<and> files w = []
          \<and> dbExecs w = [\<lparr>file_key = ''A'', status = ''success'', message = Str ''moved''\<rparr>]
          \<and> SuccessCount (stats w) = 1 \<and> ErrorCount (stats w) = 0)"
proof -
  let ?env = abc_env_no_length
  obtain w0 where st: "startup ?env (initial_world (now_start ?env))
              = (Inr (abc_db, abc_src_no_length, abc_dst), w0)"
    using abc_no_length_startup [of "initial_world (now_start ?env)"] by blast
  from abc_no_length_listKeys [of w0] obtain w1 where
    lk: "listKeys abc_src_no_length (SRC_BUCKET ?env) (SRC_PREFIX ?env) w0
           = Some (Inr [''A'', ''B'', ''C''], w1)"
    by (auto simp: abc_no_length_fields)
  let ?v = "update_stats (\<lambda>s. s\<lparr>TotalFiles := of_nat (length [''A'', ''B'', ''C''])\<rparr>) w1"
  let ?jobs = "map (\<lambda>key. \<lparr>Key = key\<rparr>) [''A'', ''B'', ''C'']"
  have "\<exists>w2. worker abc_src_no_length abc_dst (SRC_BUCKET ?env) (DST_BUCKET ?env) abc_db
          ?jobs ?v = (Some NilDereference, w2)
      \<and> writes w2 = writes ?v \<and> files w2 = files ?v
      \<and> dbExecs w2 = dbExecs ?v
          @ [\<lparr>file_key = ''A'', status = ''success'', message = Str ''moved''\<rparr>]
      \<and> SuccessCount (stats w2) = SuccessCount (stats ?v) + 1
      \<and> ErrorCount (stats w2) = ErrorCount (stats ?v)"
    by (simp add: abc_no_length_fields abc_no_length_A abc_no_length_B record_outcome_def
        logToDB_def abc_db_def issue_def update_stats_def Let_def)
  then obtain w2 where
    wk: "worker abc_src_no_length abc_dst (SRC_BUCKET ?env) (DST_BUCKET ?env) abc_db
          ?jobs ?v = (Some NilDereference, w2)"
    and fr: "writes w2 = writes ?v" "files w2 = files ?v"
      "dbExecs w2 = dbExecs ?v
          @ [\<lparr>file_key = ''A'', status = ''success'', message = Str ''moved''\<rparr>]"
      "SuccessCount (stats w2) = SuccessCount (stats ?v) + 1"
      "ErrorCount (stats w2) = ErrorCount (stats ?v)"
    by blast
  from transfer_run [OF lk wk] st have m: "main ?env = Some (Some NilDereference, w2)"
    by (simp add: main_def)
  from pool_start [OF st lk, of "of_nat (length [''A'', ''B'', ''C''])"]
  have start: "SuccessCount (stats ?v) = 0" "ErrorCount (stats ?v) = 0" "dbExecs ?v = []"
    "writes ?v = []" "files ?v = []"
    by simp_all
  with fr have "writes w2 = [] \<and> files w2 = []
      \<and> dbExecs w2 = [\<lparr>file_key = ''A'', status = ''success'', message = Str ''moved''\<rparr>]
      \<and> SuccessCount (stats w2) = 1 \<and> ErrorCount (stats w2) = 0"
    by simp
  with st lk m show ?thesis by blast
qed

section \<open>The pool size\<close>

text \<open>
  Claim C5. The number of workers depends on the number of keys alone: 25 below 1000 keys
  and 150 from 1000 keys on, so 25 for 999 keys and 150 for 1000. It is computed once in
  \<open>main\<close>, before the pool is started, and it is the number that the report of a run
  with jobs (one audit record each) shows.
\<close>

theorem workerCount_boundary:
  "workerCount 999 = 25 \<and> workerCount 1000 = 150
   \<and> (\<forall>n. n < 1000 \<longrightarrow> workerCount n = 25) \<and> (\<forall>n. 1000 \<le> n \<longrightarrow> workerCount n = 150)
   \<and> (main env = Some (None, w) \<and> dbExecs w \<noteq> []
      \<longrightarrow> (\<exists>r. writes w = [r] \<and> workerThreads r = workerCount (length (dbExecs w))))"
proof -
  have report: "\<exists>r. writes w = [r] \<and> workerThreads r = workerCount (length (dbExecs w))"
    if a: "main env = Some (None, w) \<and> dbExecs w \<noteq> []"
  proof -
    from main_completed [OF a [THEN conjunct1]] obtain db src dst w0 keys w1 w2 where
      st: "startup env (initial_world (now_start env)) = (Inr (db, src, dst), w0)"
      and lk: "listKeys src (SRC_BUCKET env) (SRC_PREFIX env) w0 = Some (Inr keys, w1)"
      and wk: "worker src dst (SRC_BUCKET env) (DST_BUCKET env) db (map (\<lambda>key. \<lparr>Key = key\<rparr>) keys)
             (update_stats (\<lambda>s. s\<lparr>TotalFiles := of_nat (length keys)\<rparr>) w1) = (None, w2)"
      and w: "w = writeSummaryLog (os_WriteFile env)
               (stats (update_stats (\<lambda>s. s\<lparr>EndTime := now_end env\<rparr>) w2))
               (SRC_BUCKET env) (DST_BUCKET env)
               (if keys = [] then 0 else workerCount (length keys))
               (update_stats (\<lambda>s. s\<lparr>EndTime := now_end env\<rparr>) w2)"
      by blast
    from pool_start [OF st lk, of "of_nat (length keys)"]
    have start: "SuccessCount (stats (update_stats (\<lambda>s. s\<lparr>TotalFiles := of_nat (length keys)\<rparr>) w1)) = 0
         \<and> ErrorCount (stats (update_stats (\<lambda>s. s\<lparr>TotalFiles := of_nat (length keys)\<rparr>) w1)) = 0
         \<and> Method (stats (update_stats (\<lambda>s. s\<lparr>TotalFiles := of_nat (length keys)\<rparr>) w1)) = []
         \<and> TotalFiles (stats (update_stats (\<lambda>s. s\<lparr>TotalFiles := of_nat (length keys)\<rparr>) w1))
             = of_nat (length (map (\<lambda>key. \<lparr>Key = key\<rparr>) keys))
         \<and> dbExecs (update_stats (\<lambda>s. s\<lparr>TotalFiles := of_nat (length keys)\<rparr>) w1) = []
         \<and> writes (update_stats (\<lambda>s. s\<lparr>TotalFiles := of_nat (length keys)\<rparr>) w1) = []
         \<and> files (update_stats (\<lambda>s. s\<lparr>TotalFiles := of_nat (length keys)\<rparr>) w1) = []"
      by simp
    note rep = report_of_run [OF start wk w]
    from rep have len: "length (dbExecs w) = length keys" by simp
    with a have "keys \<noteq> []" by auto
    with rep len show ?thesis
      by (simp add: summary_fields)
  qed
  then show ?thesis
    by (simp add: workerCount_def)
qed

theorem workerCount_boundary_witness:
  "(999 :: nat) < 1000 \<and> workerCount 999 = 25 \<and> (1000 :: nat) \<le> 1000 \<and> workerCount 1000 = 150
   \<and> (\<exists>w. (main abc_env = Some (None, w) \<and> dbExecs w \<noteq> [])
           \<and> (\<exists>r. writes w = [r] \<and> workerThreads r = 25))"
proof -
  from abc_main obtain w where m: "main abc_env = Some (None, w)" and l: "length (dbExecs w) = 3"
    by blast
  from l have ne: "dbExecs w \<noteq> []" by auto
  from workerCount_boundary [of abc_env w] m ne l
  have "\<exists>r. writes w = [r] \<and> workerThreads r = 25"
    by (simp add: workerCount_def)
  with m ne workerCount_boundary [of abc_env w] show ?thesis
    by auto
qed

section \<open>The byte total\<close>

text \<open>What each path of a job adds to \<open>TotalSizeBytes\<close>.\<close>

lemma moveObject_direct_bytes:
  assumes "CopyObject src (CopyObjectInput dstBucket key (srcBucket @ ''/'' @ key) ''COPY'' ''STANDARD'')
             = None"
  shows "fst (moveObject src dst srcBucket dstBucket key w) = Inr None
       \<and> TotalSizeBytes (stats (snd (moveObject src dst srcBucket dstBucket key w)))
           = TotalSizeBytes (stats w)
       \<and> Method (stats (snd (moveObject src dst srcBucket dstBucket key w)))
           = increment ''server-side'' (Method (stats w))"
  using assms by (simp add: moveObject_def Let_def update_stats_def issue_def)

lemma moveObjectFallback_bytes:
  assumes "HeadObject src (HeadObjectInput srcBucket key) = Inr headObj"
    and "ContentLength headObj = Some fileSize"
  shows "TotalSizeBytes (stats (snd (moveObjectFallback src dst srcBucket dstBucket key w)))
           = TotalSizeBytes (stats w) + fileSize"
  using assms
  by (simp add: moveObjectFallback_def Let_def update_stats_def issue_def
      split: sum.splits option.splits)

lemma moveObjectFallback_streamed:
  assumes "HeadObject src (HeadObjectInput srcBucket key) = Inr headObj"
    and "ContentLength headObj = Some fileSize"
    and "\<not> 5 * 1024 * 1024 * 1024 <s fileSize"
    and "GetObject src (GetObjectInput srcBucket key) = Inr obj"
    and "PutObject dst (PutObjectInput dstBucket key (Body obj) (ContentLength headObj)
           (ContentType headObj) (Metadata headObj)) = None"
  shows "fst (moveObjectFallback src dst srcBucket dstBucket key w) = Inr None
       \<and> Method (stats (snd (moveObjectFallback src dst srcBucket dstBucket key w)))
           = increment ''streaming'' (Method (stats w))"
  using assms
  by (simp add: moveObjectFallback_def Let_def update_stats_def issue_def)

text \<open>
  Claim C3, on the run of the three objects: \<open>A\<close> is copied directly, \<open>B\<close> is rejected
  as too large and \<open>C\<close> is streamed, as the claim says; but the byte total is the size of
  \<open>B\<close> plus the size of \<open>C\<close>, not the 10 MiB of \<open>C\<close> alone, because
  \<open>moveObjectFallback\<close> adds the size that the metadata request reports before it
  compares it with the limit.
\<close>

theorem abc_total_counts_rejected_object:
  "map status (dbExecs abc_final) = [''success'', ''error'', ''success'']
   \<and> map message (dbExecs abc_final)
       = [Str ''moved'', ErrorString (file_too_large (10 * 1024 * 1024 * 1024)), Str ''moved'']
   \<and> Method (stats abc_final) = [(''server-side'', 1), (''streaming'', 1)]
   \<and> TotalSizeBytes (stats abc_final) = 10 * 1024 * 1024 * 1024 + 10 * 1024 * 1024
   \<and> TotalSizeBytes (stats abc_final) \<noteq> 10 * 1024 * 1024"
  by (simp add: abc_final_def abc_jobs_def abc_A abc_B abc_C record_outcome_def logToDB_def
      abc_db_def initial_world_def issue_def update_stats_def Let_def)

section \<open>The counters under every interleaving of the workers\<close>

text \<open>A worker left alone takes one job through \<open>moveObject\<close> and the audit record.\<close>

lemma worker_steps_Idle: "worker_steps n src dst sb dbk db (Inr Idle, w) = (Inr Idle, w)"
  by (induction n) simp_all

lemma worker_steps_Inl: "worker_steps n src dst sb dbk db (Inl a, w) = (Inl a, w)"
  by (cases n) simp_all

lemma tail_steps:
  "worker_steps 2 src dst sb dbk db (Inr (AtCount job err), w) = (Inr Idle, record_outcome db job err w)"
  by (cases err) (simp_all add: numeral_2_eq_2 record_outcome_def)

lemma job_steps:
  "worker_steps 8 src dst sb dbk db (Inr (AtCopy job), w) =
     (case moveObject src dst sb dbk (Key job) w of
        (Inl a, w1) \<Rightarrow> (Inl a, w1)
      | (Inr err, w1) \<Rightarrow> (Inr Idle, record_outcome db job err w1))"
proof -
  have t: "worker_steps (Suc (Suc n)) src dst sb dbk db (Inr (AtCount job err), v)
      = (Inr Idle, record_outcome db job err v)" for n err v
    by (cases err) (simp_all add: record_outcome_def worker_steps_Idle)
  show ?thesis
    by (simp add: eval_nat_numeral moveObject_def moveObjectFallback_def Let_def t
        worker_steps_Inl record_outcome_def split: option.splits sum.splits)
qed

text \<open>What one step of a worker adds to the counters and to the audit records.\<close>

lemma sum_list_map_update:
  fixes f :: "'a \<Rightarrow> nat"
  assumes "i < length ws"
  shows "sum_list (map f (ws[i := x])) + f (ws ! i) = sum_list (map f ws) + f x"
  using assms
proof (induction ws arbitrary: i)
  case Nil
  then show ?case by simp
next
  case (Cons a ws)
  then show ?case by (cases i) auto
qed

lemma successes_append: "successes (rows @ [r]) = successes rows + successes [r]"
  by (simp add: successes_def)

lemma failures_append: "failures (rows @ [r]) = failures rows + failures [r]"
  by (simp add: failures_def)

lemma logToDB_rows:
  "dbExecs (logToDB db key st msg w) = dbExecs w @ [\<lparr>file_key = key, status = st, message = msg\<rparr>]
   \<and> stats (logToDB db key st msg w) = stats w"
  by (simp add: logToDB_frame)

lemma worker_step_delta:
  assumes step: "worker_step src dst sb dbk db p w = (Inr p', w')"
    and busy: "p \<noteq> Idle" "p \<noteq> Exited"
  shows "\<exists>ds df dm :: nat.
      SuccessCount (stats w') = SuccessCount (stats w) + of_nat ds
    \<and> ErrorCount (stats w') = ErrorCount (stats w) + of_nat df
    \<and> sum_list (map snd (Method (stats w'))) = sum_list (map snd (Method (stats w))) + of_nat dm
    \<and> ((Method (stats w') = []) = (Method (stats w) = [] \<and> dm = 0))
    \<and> successes (dbExecs w') + counted_success p' = successes (dbExecs w) + counted_success p + ds
    \<and> failures (dbExecs w') + counted_failure p' = failures (dbExecs w) + counted_failure p + df
    \<and> successes (dbExecs w') + counted_success p' + method_ahead p'
        = successes (dbExecs w) + counted_success p + method_ahead p + dm
    \<and> length (dbExecs w') + in_flight p' = length (dbExecs w) + in_flight p
    \<and> successes (dbExecs w') + failures (dbExecs w') + length (dbExecs w)
        = successes (dbExecs w) + failures (dbExecs w) + length (dbExecs w')"
proof (cases p)
  case Idle
  with busy show ?thesis by simp
next
  case Exited
  with busy show ?thesis by simp
next
  case (AtCopy job)
  with step show ?thesis
    by (intro exI [of _ 0]) (auto simp: Let_def issue_def split: option.splits)
next
  case (AtCountDirect job)
  with step show ?thesis
    by (intro exI [of _ 0] exI [of _ 1])
      (auto simp: update_stats_def sum_increment increment_not_Nil)
next
  case (AtHead job)
  with step show ?thesis
    by (intro exI [of _ 0]) (auto simp: Let_def issue_def split: option.splits sum.splits)
next
  case (AtAddSize job h n)
  with step show ?thesis
    by (intro exI [of _ 0]) (auto simp: Let_def update_stats_def split: if_splits)
next
  case (AtGet job h)
  with step show ?thesis
    by (intro exI [of _ 0]) (auto simp: Let_def issue_def split: option.splits sum.splits)
next
  case (AtPut job h obj)
  with step show ?thesis
    by (intro exI [of _ 0]) (auto simp: Let_def issue_def split: option.splits sum.splits)
next
  case (AtCountStreamed job)
  with step show ?thesis
    by (intro exI [of _ 0] exI [of _ 1])
      (auto simp: update_stats_def sum_increment increment_not_Nil)
next
  case (AtCount job err)
  show ?thesis
  proof (cases err)
    case None
    with AtCount step show ?thesis
      by (intro exI [of _ 1] exI [of _ 0]) (auto simp: update_stats_def)
  next
    case (Some e)
    with AtCount step show ?thesis
      by (intro exI [of _ 0] exI [of _ 1]) (auto simp: update_stats_def)
  qed
next
  case (AtLog job err)
  show ?thesis
  proof (cases err)
    case None
    with AtLog step show ?thesis
      by (intro exI [of _ 0])
        (auto simp: logToDB_rows successes_def failures_def)
  next
    case (Some e)
    with AtLog step show ?thesis
      by (intro exI [of _ 0])
        (auto simp: logToDB_rows successes_def failures_def)
  qed
qed

text \<open>Every step of the pool keeps the counters as \<open>pool_inv\<close> gives them.\<close>

lemma pool_inv_run:
  assumes inv: "pool_inv njobs P" and i: "i < length (goroutines P)" and p: "goroutines P ! i = p"
    and busy: "p \<noteq> Idle" "p \<noteq> Exited"
    and step: "worker_step src dst sb dbk db p (world P) = (Inr p', w')"
  shows "pool_inv njobs (P\<lparr>goroutines := (goroutines P)[i := p'], world := w'\<rparr>)"
proof -
  let ?ws = "goroutines P" and ?ws' = "(goroutines P)[i := p']" and ?w = "world P"
  from worker_step_delta [OF step busy] obtain ds df dm :: nat where
    S: "SuccessCount (stats w') = SuccessCount (stats ?w) + of_nat ds"
    and E: "ErrorCount (stats w') = ErrorCount (stats ?w) + of_nat df"
    and M: "sum_list (map snd (Method (stats w'))) = sum_list (map snd (Method (stats ?w))) + of_nat dm"
    and N: "(Method (stats w') = []) = (Method (stats ?w) = [] \<and> dm = 0)"
    and ds: "successes (dbExecs w') + counted_success p' = successes (dbExecs ?w) + counted_success p + ds"
    and df: "failures (dbExecs w') + counted_failure p' = failures (dbExecs ?w) + counted_failure p + df"
    and dm: "successes (dbExecs w') + counted_success p' + method_ahead p'
        = successes (dbExecs ?w) + counted_success p + method_ahead p + dm"
    and fl: "length (dbExecs w') + in_flight p' = length (dbExecs ?w) + in_flight p"
    and rw: "successes (dbExecs w') + failures (dbExecs w') + length (dbExecs ?w)
        = successes (dbExecs ?w) + failures (dbExecs ?w) + length (dbExecs w')"
    by blast
  note u1 = sum_list_map_update [OF i, of counted_success p', unfolded p]
    and u2 = sum_list_map_update [OF i, of counted_failure p', unfolded p]
    and u3 = sum_list_map_update [OF i, of method_ahead p', unfolded p]
    and u4 = sum_list_map_update [OF i, of in_flight p', unfolded p]
  from inv have
    I1: "SuccessCount (stats ?w) = of_nat (successes (dbExecs ?w) + sum_list (map counted_success ?ws))"
    and I2: "ErrorCount (stats ?w) = of_nat (failures (dbExecs ?w) + sum_list (map counted_failure ?ws))"
    and I3: "sum_list (map snd (Method (stats ?w)))
       = of_nat (successes (dbExecs ?w) + sum_list (map counted_success ?ws)
                 + sum_list (map method_ahead ?ws))"
    and I4: "(Method (stats ?w) = [])
        = (successes (dbExecs ?w) + sum_list (map counted_success ?ws)
            + sum_list (map method_ahead ?ws) = 0)"
    and I5: "successes (dbExecs ?w) + failures (dbExecs ?w) = length (dbExecs ?w)"
    and I6: "length (dbExecs ?w) + sum_list (map in_flight ?ws) + length (queue P) = njobs"
    unfolding pool_inv_def by simp_all
  have a: "successes (dbExecs w') + sum_list (map counted_success ?ws')
      = successes (dbExecs ?w) + sum_list (map counted_success ?ws) + ds"
    using ds u1 by linarith
  have b: "failures (dbExecs w') + sum_list (map counted_failure ?ws')
      = failures (dbExecs ?w) + sum_list (map counted_failure ?ws) + df"
    using df u2 by linarith
  have c: "successes (dbExecs w') + sum_list (map counted_success ?ws')
        + sum_list (map method_ahead ?ws')
      = successes (dbExecs ?w) + sum_list (map counted_success ?ws)
        + sum_list (map method_ahead ?ws) + dm"
    using dm u1 u3 by linarith
  have d: "length (dbExecs w') + sum_list (map in_flight ?ws') + length (queue P) = njobs"
    using fl u4 I6 by linarith
  have e: "successes (dbExecs w') + failures (dbExecs w') = length (dbExecs w')"
    using rw I5 by linarith
  have J1: "SuccessCount (stats w')
      = of_nat (successes (dbExecs w') + sum_list (map counted_success ?ws'))"
    unfolding a S I1 by simp
  have J2: "ErrorCount (stats w')
      = of_nat (failures (dbExecs w') + sum_list (map counted_failure ?ws'))"
    unfolding b E I2 by simp
  have J3: "sum_list (map snd (Method (stats w')))
      = of_nat (successes (dbExecs w') + sum_list (map counted_success ?ws')
                + sum_list (map method_ahead ?ws'))"
    unfolding c M I3 by simp
  have J4: "(Method (stats w') = [])
      = (successes (dbExecs w') + sum_list (map counted_success ?ws')
            + sum_list (map method_ahead ?ws') = 0)"
    unfolding c N I4 by simp
  from J1 J2 J3 J4 e d show ?thesis
    unfolding pool_inv_def by simp
qed

lemma worker_step_panic:
  assumes "worker_step src dst sb dbk db p w = (Inl a, w')"
  shows "stats w' = stats w \<and> dbExecs w' = dbExecs w"
  using assms
  by (cases "(src, dst, sb, dbk, db, p, w)" rule: worker_step.cases)
    (auto simp: Let_def issue_def split: option.splits sum.splits if_splits)

lemma pool_inv_step:
  assumes inv: "pool_inv njobs P" and step: "pool_step src dst sb dbk db P P'"
  shows "pool_inv njobs P'"
  using step
proof cases
  case (receive i job rest)
  note u = sum_list_map_update [OF receive(3), of counted_success "AtCopy job"]
    sum_list_map_update [OF receive(3), of counted_failure "AtCopy job"]
    sum_list_map_update [OF receive(3), of method_ahead "AtCopy job"]
    sum_list_map_update [OF receive(3), of in_flight "AtCopy job"]
  from inv u receive show ?thesis
    unfolding pool_inv_def by simp
next
  case (closed i)
  note u = sum_list_map_update [OF closed(3), of counted_success Exited]
    sum_list_map_update [OF closed(3), of counted_failure Exited]
    sum_list_map_update [OF closed(3), of method_ahead Exited]
    sum_list_map_update [OF closed(3), of in_flight Exited]
  from inv u closed show ?thesis
    unfolding pool_inv_def by simp
next
  case (run i p p' w')
  from pool_inv_run [OF inv run(3,4,5,6,7)] run(1) show ?thesis by simp
next
  case (panic i p a w')
  from worker_step_panic [OF panic(5)] inv panic(1) show ?thesis
    unfolding pool_inv_def by simp
qed

lemma pool_inv_steps:
  assumes "(pool_step src dst sb dbk db)\<^sup>*\<^sup>* P P'" and "pool_inv njobs P"
  shows "pool_inv njobs P'"
  using assms by (induction rule: rtranclp_induct) (auto intro: pool_inv_step)

lemma resting_weights:
  assumes "list_all (\<lambda>p. p = Idle \<or> p = Exited) ws"
  shows "sum_list (map counted_success ws) = 0 \<and> sum_list (map counted_failure ws) = 0
       \<and> sum_list (map method_ahead ws) = 0 \<and> sum_list (map in_flight ws) = 0"
  using assms by (induction ws) auto

lemma pool_inv_init:
  assumes "SuccessCount (stats w) = 0" "ErrorCount (stats w) = 0" "Method (stats w) = []"
    "dbExecs w = []"
  shows "pool_inv (length jobs) (pool_init n jobs w)"
proof -
  have "list_all (\<lambda>p. p = Idle \<or> p = Exited) (replicate n Idle)"
    by (simp add: list_all_iff)
  from resting_weights [OF this] assms show ?thesis
    by (simp add: pool_inv_def pool_init_def successes_def failures_def sum_list_replicate)
qed

text \<open>
  Whatever the interleaving of the workers, at every point of the run at which no job is
  in flight the counters are the ones of the jobs finished so far.
\<close>

lemma pool_counts:
  assumes reach: "(pool_step src dst sb dbk db)\<^sup>*\<^sup>* (pool_init n jobs w) P"
    and fresh: "SuccessCount (stats w) = 0" "ErrorCount (stats w) = 0" "Method (stats w) = []"
      "dbExecs w = []"
    and rest: "no_job_in_flight P"
    and len: "length jobs < 2 ^ 63"
  shows "sint (SuccessCount (stats (world P))) = int (successes (dbExecs (world P)))
       \<and> sint (ErrorCount (stats (world P))) = int (failures (dbExecs (world P)))
       \<and> successes (dbExecs (world P)) + failures (dbExecs (world P)) = length (dbExecs (world P))
       \<and> length (dbExecs (world P)) + length (queue P) = length jobs
       \<and> sum_list (map snd (Method (stats (world P)))) = SuccessCount (stats (world P))
       \<and> ((SuccessCount (stats (world P)) = 0) = (Method (stats (world P)) = []))"
proof -
  let ?rows = "dbExecs (world P)"
  from pool_inv_steps [OF reach pool_inv_init [OF fresh]]
  have inv: "pool_inv (length jobs) P" .
  from rest have "list_all (\<lambda>p. p = Idle \<or> p = Exited) (goroutines P)"
    by (simp add: no_job_in_flight_def)
  note z = resting_weights [OF this]
  from inv z have S: "SuccessCount (stats (world P)) = of_nat (successes ?rows)"
    and E: "ErrorCount (stats (world P)) = of_nat (failures ?rows)"
    and M: "sum_list (map snd (Method (stats (world P)))) = of_nat (successes ?rows)"
    and N: "(Method (stats (world P)) = []) = (successes ?rows = 0)"
    and R: "successes ?rows + failures ?rows = length ?rows"
    and T: "length ?rows + length (queue P) = length jobs"
    unfolding pool_inv_def by simp_all
  from R T len have s: "successes ?rows < 2 ^ 63" and f: "failures ?rows < 2 ^ 63"
    by simp_all
  from S E M N R T show ?thesis
    by (simp add: sint_of_nat_small [OF s] sint_of_nat_small [OF f] of_nat_small_eq_0 [OF s])
qed

subsection \<open>One worker taking every job is one of the interleavings\<close>

lemma worker_step_not_Exited:
  assumes "worker_step src dst sb dbk db p w = (Inr p', w')" and "p \<noteq> Exited"
  shows "p' \<noteq> Exited"
  using assms
  by (cases "(src, dst, sb, dbk, db, p, w)" rule: worker_step.cases)
    (auto simp: Let_def split: option.splits sum.splits if_splits)

lemma worker_steps_reach:
  assumes "worker_steps k src dst sb dbk db (Inr p, w) = (Inr Idle, w')"
    and "i < length ws" and "ws ! i = p" and "p \<noteq> Exited"
  shows "(pool_step src dst sb dbk db)\<^sup>*\<^sup>*
           \<lparr>queue = q, goroutines = ws, world = w, crashed = None\<rparr>
           \<lparr>queue = q, goroutines = ws[i := Idle], world = w', crashed = None\<rparr>"
  using assms
proof (induction k arbitrary: p w ws)
  case 0
  then have "p = Idle" "w' = w" by simp_all
  with "0.prems" have "ws[i := Idle] = ws" by (simp add: list_update_same_conv)
  with \<open>w' = w\<close> show ?case by simp
next
  case (Suc k)
  show ?case
  proof (cases "p = Idle")
    case True
    with Suc.prems have "w' = w" by (simp add: worker_steps_Idle)
    moreover from True Suc.prems have "ws[i := Idle] = ws" by (simp add: list_update_same_conv)
    ultimately show ?thesis by simp
  next
    case False
    obtain r w1 where st: "worker_step src dst sb dbk db p w = (r, w1)"
      by (cases "worker_step src dst sb dbk db p w")
    with Suc.prems(1) obtain p' where r: "r = Inr p'"
      by (cases r) (simp_all add: worker_steps_Inl)
    from st r Suc.prems(1) have rest: "worker_steps k src dst sb dbk db (Inr p', w1) = (Inr Idle, w')"
      by simp
    from worker_step_not_Exited [OF st [unfolded r] Suc.prems(4)] have ne: "p' \<noteq> Exited" .
    let ?P = "\<lparr>queue = q, goroutines = ws, world = w, crashed = None\<rparr>"
    have "pool_step src dst sb dbk db ?P (?P\<lparr>goroutines := (goroutines ?P)[i := p'], world := w1\<rparr>)"
      using Suc.prems(2,3,4) False st r by (intro pool_step.run [where p = p]) simp_all
    then have one: "pool_step src dst sb dbk db ?P
        \<lparr>queue = q, goroutines = ws[i := p'], world = w1, crashed = None\<rparr>"
      by simp
    from Suc.IH [OF rest, of "ws[i := p']"] Suc.prems(2) ne
    have "(pool_step src dst sb dbk db)\<^sup>*\<^sup>*
           \<lparr>queue = q, goroutines = ws[i := p'], world = w1, crashed = None\<rparr>
           \<lparr>queue = q, goroutines = ws[i := Idle], world = w', crashed = None\<rparr>"
      by simp
    with one show ?thesis
      by (rule converse_rtranclp_into_rtranclp)
  qed
qed

lemma worker_is_an_interleaving:
  assumes "worker src dst sb dbk db jobs w = (None, w')" and "0 < n"
  shows "(pool_step src dst sb dbk db)\<^sup>*\<^sup>* (pool_init n jobs w) (pool_init n [] w')"
  using assms(1)
proof (induction jobs arbitrary: w)
  case Nil
  then show ?case by simp
next
  case (Cons job jobs)
  obtain r w1 where mo: "moveObject src dst sb dbk (Key job) w = (r, w1)"
    by (cases "moveObject src dst sb dbk (Key job) w")
  with Cons.prems obtain err where r: "r = Inr err"
    and rest: "worker src dst sb dbk db jobs (record_outcome db job err w1) = (None, w')"
    by (cases r) auto
  let ?ws = "replicate n Idle"
  let ?P = "pool_init n (job # jobs) w"
  have "pool_step src dst sb dbk db ?P (?P\<lparr>queue := jobs, goroutines := (goroutines ?P)[0 := AtCopy job]\<rparr>)"
    using assms(2) by (intro pool_step.receive) (simp_all add: pool_init_def)
  then have first: "pool_step src dst sb dbk db ?P
      \<lparr>queue = jobs, goroutines = ?ws[0 := AtCopy job], world = w, crashed = None\<rparr>"
    by (simp add: pool_init_def)
  from job_steps [of src dst sb dbk db job w] mo r
  have "worker_steps 8 src dst sb dbk db (Inr (AtCopy job), w)
      = (Inr Idle, record_outcome db job err w1)"
    by simp
  from worker_steps_reach [OF this, of 0 "?ws[0 := AtCopy job]" jobs] assms(2)
  have "(pool_step src dst sb dbk db)\<^sup>*\<^sup>*
      \<lparr>queue = jobs, goroutines = ?ws[0 := AtCopy job], world = w, crashed = None\<rparr>
      \<lparr>queue = jobs, goroutines = ?ws[0 := AtCopy job, 0 := Idle],
        world = record_outcome db job err w1, crashed = None\<rparr>"
    by simp
  moreover have "?ws[0 := AtCopy job, 0 := Idle] = ?ws"
    using assms(2) by (simp add: list_update_same_conv)
  ultimately have job: "(pool_step src dst sb dbk db)\<^sup>*\<^sup>*
      \<lparr>queue = jobs, goroutines = ?ws[0 := AtCopy job], world = w, crashed = None\<rparr>
      (pool_init n jobs (record_outcome db job err w1))"
    by (simp add: pool_init_def)
  from first job Cons.IH [OF rest] show ?case
    by (meson converse_rtranclp_into_rtranclp rtranclp_trans)
qed

end
